theory Spec2Isabelle
  imports Main "HOL-Library.Sublist"
begin

section \<open>Python strings\<close>

text \<open>
  A Python \<open>str\<close> is modelled as a \<open>string\<close>; each \<open>char\<close> stands for the code
  point of the same number, so the model covers the strings whose code points are below
  256 (ASCII and Latin-1). The character classes below are Python's on that range.
\<close>

definition isspace :: "char \<Rightarrow> bool" where
  \<comment> \<open>\<open>str.isspace\<close> on one character; also the class \<open>\s\<close> of \<open>re\<close> on \<open>str\<close> patterns\<close>
  "isspace c \<longleftrightarrow>
     c \<in> set [CHR 0x09, CHR 0x0A, CHR 0x0B, CHR 0x0C, CHR 0x0D, CHR 0x1C, CHR 0x1D,
               CHR 0x1E, CHR 0x1F, CHR 0x20, CHR 0x85, CHR 0xA0]"

definition strip :: "string \<Rightarrow> string" where
  \<comment> \<open>\<open>s.strip()\<close>\<close>
  "strip s = rev (dropWhile isspace (rev (dropWhile isspace s)))"

definition lower_char :: "char \<Rightarrow> char" where
  "lower_char c =
     (let n = (of_char c :: nat) in
      if (65 \<le> n \<and> n \<le> 90) \<or> (192 \<le> n \<and> n \<le> 222 \<and> n \<noteq> 215)
      then char_of (n + 32) else c)"

definition lower :: "string \<Rightarrow> string" where
  \<comment> \<open>\<open>s.lower()\<close>\<close>
  "lower s = map lower_char s"

definition hex_digit :: "nat \<Rightarrow> char" where
  "hex_digit n = ''0123456789abcdef'' ! (n mod 16)"

definition printable :: "char \<Rightarrow> bool" where
  \<comment> \<open>\<open>str.isprintable\<close> on one character\<close>
  "printable c \<longleftrightarrow>
     (let n = (of_char c :: nat) in 32 \<le> n \<and> n < 127 \<or> 161 \<le> n \<and> n \<noteq> 173)"

definition repr_char :: "char \<Rightarrow> char \<Rightarrow> string" where
  \<comment> \<open>one character inside \<open>repr(s)\<close>, \<open>q\<close> being the quote chosen for \<open>s\<close>\<close>
  "repr_char q c =
     (if c = q \<or> c = CHR 0x5C then [CHR 0x5C, c]
      else if c = CHR 0x09 then [CHR 0x5C, CHR ''t'']
      else if c = CHR 0x0A then [CHR 0x5C, CHR ''n'']
      else if c = CHR 0x0D then [CHR 0x5C, CHR ''r'']
      else if printable c then [c]
      else [CHR 0x5C, CHR ''x'', hex_digit (of_char c div 16), hex_digit (of_char c)])"

definition repr_quote :: "string \<Rightarrow> char" where
  "repr_quote s = (if CHR 0x27 \<in> set s \<and> CHR 0x22 \<notin> set s then CHR 0x22 else CHR 0x27)"

definition repr_str :: "string \<Rightarrow> string" where
  \<comment> \<open>\<open>repr(s)\<close> of a \<open>str\<close>\<close>
  "repr_str s = (let q = repr_quote s in [q] @ concat (map (repr_char q) s) @ [q])"

definition plain :: "char \<Rightarrow> bool" where
  \<comment> \<open>the characters \<open>repr\<close> copies unchanged inside single quotes\<close>
  "plain c \<longleftrightarrow> printable c \<and> c \<noteq> CHR 0x27 \<and> c \<noteq> CHR 0x5C"

fun join :: "string \<Rightarrow> string list \<Rightarrow> string" where
  \<comment> \<open>\<open>sep.join(xs)\<close>\<close>
  "join sep [] = []"
| "join sep [x] = x"
| "join sep (x # y # ys) = x @ sep @ join sep (y # ys)"

definition repr_list :: "string list \<Rightarrow> string" where
  \<comment> \<open>\<open>repr(xs)\<close> of a list of \<open>str\<close>, as an f-string prints it\<close>
  "repr_list xs = ''['' @ join '', '' (map repr_str xs) @ '']''"

section \<open>Exceptions\<close>

text \<open>
  A raised exception. \<open>RuntimeError\<close>, \<open>IndexError\<close> and \<open>OtherError\<close> are instances of
  \<open>Exception\<close> with their message; \<open>StrRaises ex\<close> is an instance of \<open>Exception\<close> whose
  \<open>__str__\<close> raises \<open>ex\<close>; \<open>NotException\<close> is a \<open>BaseException\<close> that is not an
  \<open>Exception\<close> (\<open>KeyboardInterrupt\<close>, \<open>SystemExit\<close>), which \<open>except Exception\<close> does not
  catch.
\<close>

datatype exn =
    RuntimeError string
  | IndexError string
  | OtherError string
  | StrRaises exn
  | NotException string

fun is_exception :: "exn \<Rightarrow> bool" where
  \<comment> \<open>\<open>isinstance(e, Exception)\<close>\<close>
  "is_exception (NotException m) = False"
| "is_exception ex = True"

fun str_of :: "exn \<Rightarrow> exn + string" where
  \<comment> \<open>\<open>str(e)\<close>: the message, or the exception that computing it raises\<close>
  "str_of (RuntimeError m) = Inr m"
| "str_of (IndexError m) = Inr m"
| "str_of (OtherError m) = Inr m"
| "str_of (StrRaises ex) = Inl ex"
| "str_of (NotException m) = Inr m"

section \<open>provider/ollama.py: the model factory\<close>

datatype ChatOllama = ChatOllama (llm_model: string) (llm_streaming: bool)

definition default_candidates :: "string list" where
  "default_candidates =
     [''llama3.1:8b'', ''llama3.1'', ''llama3:8b'', ''qwen2.5:7b'', ''mistral:7b'']"

fun pick_candidate :: "string list \<Rightarrow> string list \<Rightarrow> string option" where
  \<comment> \<open>the loop \<open>for cand in (...): if cand in names: selected = cand; break\<close>\<close>
  "pick_candidate names [] = None"
| "pick_candidate names (cand # rest) =
     (if cand \<in> set names then Some cand else pick_candidate names rest)"

definition select_default :: "string list \<Rightarrow> string" where
  \<comment> \<open>the \<open>else\<close> branch of \<open>get_llm\<close>: no explicit model provided\<close>
  "select_default names =
     (case pick_candidate names default_candidates of
        Some cand \<Rightarrow> cand
      | None \<Rightarrow> (case names of [] \<Rightarrow> ''llama3.1'' | n # _ \<Rightarrow> n))"

definition not_installed_message :: "string \<Rightarrow> string list \<Rightarrow> string" where
  "not_installed_message selected names =
     ''Requested model '' @ [CHR 0x27] @ selected @ [CHR 0x27] @
     '' is not installed in Ollama. Install it (e.g., 'ollama pull '' @ selected @
     [CHR 0x27] @ '') or select an installed model: '' @ repr_list names"

definition get_llm :: "bool \<Rightarrow> string list \<Rightarrow> string option \<Rightarrow> bool \<Rightarrow> exn + ChatOllama" where
  \<comment> \<open>\<open>get_llm(model, streaming)\<close>; \<open>available\<close> is the module's \<open>OLLAMA_AVAILABLE\<close> and
      \<open>names\<close> is what \<open>list_models()\<close> returns\<close>
  "get_llm available names mdl strm =
     (if \<not> available then Inl (RuntimeError ''langchain-ollama not installed'')
      else (case mdl of
              None \<Rightarrow> Inr (ChatOllama (select_default names) strm)
            | Some selected \<Rightarrow>
                if selected \<noteq> [] then
                  (if selected \<notin> set names
                   then Inl (RuntimeError (not_installed_message selected names))
                   else Inr (ChatOllama selected strm))
                else Inr (ChatOllama (select_default names) strm)))"

section \<open>app.py: request data\<close>

record HistoryItem =
  role :: string
  content :: string

text \<open>
  The values of \<open>user_context\<close> are typed \<open>Any\<close>; the model covers \<open>None\<close>, booleans,
  integers and strings.
\<close>

datatype py_value = PyNone | PyBool bool | PyInt int | PyStr string

fun truthy :: "py_value \<Rightarrow> bool" where
  "truthy PyNone = False"
| "truthy (PyBool b) = b"
| "truthy (PyInt i) = (i \<noteq> 0)"
| "truthy (PyStr s) = (s \<noteq> [])"

record ChatRequest =
  message :: string
  history :: "HistoryItem list option"
  model :: "string option"
  system :: "string option"
  tools_enabled :: "bool option"
  reasoning_enabled :: "bool option"
  user_context :: "(string \<rightharpoonup> py_value) option"

record TitleRequest =
  messages :: "HistoryItem list"
  title_model :: "string option"
  max_words :: int

datatype message = HumanMessage string | AIMessage string

definition last_n :: "nat \<Rightarrow> 'a list \<Rightarrow> 'a list" where
  \<comment> \<open>the slice \<open>xs[-n:]\<close>, for \<open>n > 0\<close>\<close>
  "last_n n xs = drop (length xs - n) xs"

definition to_message :: "HistoryItem \<Rightarrow> message" where
  \<comment> \<open>the branch on \<open>(h.role or "").lower() == "assistant"\<close>\<close>
  "to_message h =
     (if lower (role h) = ''assistant'' then AIMessage (content h)
      else HumanMessage (content h))"

definition system_text :: "ChatRequest \<Rightarrow> string" where
  \<comment> \<open>\<open>req.system or ""\<close>\<close>
  "system_text req = (case system req of None \<Rightarrow> [] | Some s \<Rightarrow> s)"

definition history_list :: "ChatRequest \<Rightarrow> HistoryItem list" where
  \<comment> \<open>\<open>req.history or []\<close>\<close>
  "history_list req = (case history req of None \<Rightarrow> [] | Some hs \<Rightarrow> hs)"

definition build_messages :: "ChatRequest \<Rightarrow> message list" where
  \<comment> \<open>the message list built in \<open>chat\<close> and, by the same statements, in \<open>chat_sse\<close>\<close>
  "build_messages req =
     (if strip (system_text req) \<noteq> []
      then [HumanMessage (''[SYSTEM]'' @ [CHR 0x0A] @ system_text req)]
      else []) @
     map to_message (last_n 10 (history_list req)) @
     [HumanMessage (message req)]"

definition model_or_default :: "ChatRequest \<Rightarrow> string" where
  \<comment> \<open>\<open>req.model or "llama3.1"\<close>\<close>
  "model_or_default req =
     (case model req of None \<Rightarrow> ''llama3.1'' | Some m \<Rightarrow> if m \<noteq> [] then m else ''llama3.1'')"

definition session_id :: "ChatRequest \<Rightarrow> py_value" where
  \<comment> \<open>\<open>(req.user_context or {}).get("conversation_id") or "default"\<close>\<close>
  "session_id req =
     (case (case user_context req of None \<Rightarrow> Map.empty | Some ctx \<Rightarrow> ctx) ''conversation_id'' of
        None \<Rightarrow> PyStr ''default''
      | Some v \<Rightarrow> if truthy v then v else PyStr ''default'')"

section \<open>memory/store.py: the session history store\<close>

type_synonym session_store = "py_value \<rightharpoonup> message list"

definition dict_key :: "py_value \<Rightarrow> py_value" where
  \<comment> \<open>as dictionary keys \<open>True\<close> and \<open>1\<close>, \<open>False\<close> and \<open>0\<close> are one key\<close>
  "dict_key v = (case v of PyBool b \<Rightarrow> PyInt (if b then 1 else 0) | _ \<Rightarrow> v)"

definition get_session_history :: "session_store \<Rightarrow> py_value \<Rightarrow> session_store" where
  \<comment> \<open>the store after \<open>get_session_history(session_id)\<close>; the object returned is the
      entry of the key\<close>
  "get_session_history store sid =
     (if store (dict_key sid) = None then store(dict_key sid \<mapsto> []) else store)"

definition add_message :: "py_value \<Rightarrow> session_store \<Rightarrow> message \<Rightarrow> session_store" where
  \<comment> \<open>\<open>hist.add_ai_message\<close> and \<open>hist.add_user_message\<close>, \<open>hist\<close> being the entry of \<open>sid\<close>\<close>
  "add_message sid store m =
     store(dict_key sid \<mapsto> (case store (dict_key sid) of None \<Rightarrow> [] | Some ms \<Rightarrow> ms) @ [m])"

definition default_history :: "session_store \<Rightarrow> message list" where
  \<comment> \<open>the history stored for the session \<open>default\<close>, empty when there is none\<close>
  "default_history st = (case st (PyStr ''default'') of None \<Rightarrow> [] | Some ms \<Rightarrow> ms)"

section \<open>app.py: the environment of the endpoints\<close>

datatype invoke_outcome = Replied string | Raised exn | TimedOut

text \<open>
  What the endpoints read from outside: which imports succeeded when the modules were
  loaded, the model names \<open>list_models()\<close> returns, and the replies of the model handle.
  A streamed chunk is \<open>Inr\<close> its text content, or \<open>Inl\<close> the exception the iteration
  raises at that point. The title prompt is computed from the last eight messages, so the
  reply to it is given as a function of them.
\<close>

record env =
  langchain_core_importable :: bool
  provider_importable :: bool
  langchain_ollama_importable :: bool
  store_importable :: bool
  installed :: "string list"
  invoke :: "ChatOllama \<Rightarrow> message list \<Rightarrow> exn + string"
  stream :: "ChatOllama \<Rightarrow> message list \<Rightarrow> (exn + string) list"
  title_invoke :: "ChatOllama \<Rightarrow> HistoryItem list \<Rightarrow> invoke_outcome"

definition OLLAMA_AVAILABLE :: "env \<Rightarrow> bool" where
  \<comment> \<open>app.py sets its flag by importing \<open>langchain_core.messages\<close>\<close>
  "OLLAMA_AVAILABLE e = langchain_core_importable e"

definition app_get_llm :: "env \<Rightarrow> string option \<Rightarrow> bool \<Rightarrow> exn + ChatOllama" where
  \<comment> \<open>\<open>get_llm\<close> as app.py binds it: the provider's function, whose own flag is set by
      importing \<open>langchain_ollama\<close>, or the stub when the provider cannot be imported\<close>
  "app_get_llm e mdl strm =
     (if provider_importable e
      then get_llm (langchain_ollama_importable e) (installed e) mdl strm
      else Inl (RuntimeError ''Ollama provider not available''))"

section \<open>app.py: one-shot chat\<close>

datatype chat_response =
    ChatFallback (chat_output: string) (model_echo: "string option")
  | ChatOutput (chat_output: string)

definition chat_body :: "env \<Rightarrow> ChatRequest \<Rightarrow> exn + string" where
  \<comment> \<open>the \<open>try\<close> block of \<open>chat\<close>\<close>
  "chat_body e req =
     (case app_get_llm e (Some (model_or_default req)) False of
        Inl ex \<Rightarrow> Inl ex
      | Inr llm \<Rightarrow> invoke e llm (build_messages req))"

definition chat ::
  "env \<Rightarrow> session_store \<Rightarrow> ChatRequest \<Rightarrow> (exn + chat_response) \<times> session_store" where
  \<comment> \<open>the response, or the exception that leaves the endpoint, and the session store
      after the call; \<open>except Exception as e\<close> formats \<open>e\<close> into the output\<close>
  "chat e store req =
     (if \<not> OLLAMA_AVAILABLE e
      then (Inr (ChatFallback ''Backend is running, but langchain-ollama is not installed.''
                   (case model req of None \<Rightarrow> None | Some m \<Rightarrow> if m \<noteq> [] then Some m else None)),
            store)
      else (case chat_body e req of
              Inr text \<Rightarrow> (Inr (ChatOutput text), store)
            | Inl ex \<Rightarrow>
                if is_exception ex then
                  (case str_of ex of
                     Inr m \<Rightarrow> (Inr (ChatOutput (''Error from model: '' @ m)), store)
                   | Inl ex' \<Rightarrow> (Inl ex', store))
                else (Inl ex, store)))"

section \<open>app.py: streaming chat\<close>

datatype StreamEvent = Meta string nat | Token string | Error string | Done

text \<open>
  A run of a generator: the events it yields, in order, and the exception that ends it,
  if one does. Each event stands for one yielded \<open>data: {...}\<close> frame.
\<close>

type_synonym gen = "StreamEvent list \<times> exn option"

definition try_except :: "gen \<Rightarrow> (exn \<Rightarrow> gen) \<Rightarrow> gen" where
  \<comment> \<open>\<open>try: body except Exception as e: handler(e)\<close>; an exception that is not an
      \<open>Exception\<close> is not caught, and the handler may raise in its turn\<close>
  "try_except body handler =
     (case body of
        (evs, None) \<Rightarrow> (evs, None)
      | (evs, Some ex) \<Rightarrow>
          if is_exception ex then (case handler ex of (evs', r) \<Rightarrow> (evs @ evs', r))
          else (evs, Some ex))"

definition error_handler :: "exn \<Rightarrow> gen" where
  \<comment> \<open>the \<open>except\<close> block of \<open>event_stream\<close>: the guarded \<open>print\<close>, then
      \<open>json.dumps({"type": "error", "message": str(e)})\<close> and the \<open>yield\<close>\<close>
  "error_handler ex =
     (case str_of ex of Inr m \<Rightarrow> ([Error m], None) | Inl ex' \<Rightarrow> ([], Some ex'))"

definition try_finally :: "gen \<Rightarrow> gen \<Rightarrow> gen" where
  \<comment> \<open>\<open>try: body finally: fin\<close>\<close>
  "try_finally body fin =
     (case body of (evs, r) \<Rightarrow>
        (case fin of (evs', r') \<Rightarrow> (evs @ evs', case r' of Some ex \<Rightarrow> Some ex | None \<Rightarrow> r)))"

fun relay :: "(exn + string) list \<Rightarrow> gen" where
  \<comment> \<open>the loop \<open>for chunk in llm.stream(msgs)\<close>\<close>
  "relay [] = ([], None)"
| "relay (Inl ex # rest) = ([], Some ex)"
| "relay (Inr txt # rest) =
     (if txt = [] then relay rest
      else (case relay rest of (evs, r) \<Rightarrow> (Token txt # evs, r)))"

definition stream_body :: "env \<Rightarrow> ChatRequest \<Rightarrow> gen" where
  \<comment> \<open>the second \<open>try\<close> block of \<open>event_stream\<close>\<close>
  "stream_body e req =
     (case app_get_llm e (Some (model_or_default req)) True of
        Inl ex \<Rightarrow> ([], Some ex)
      | Inr llm \<Rightarrow>
          (case relay (stream e llm (build_messages req)) of
             (evs, r) \<Rightarrow>
               (Meta (if llm_model llm \<noteq> [] then llm_model llm else model_or_default req)
                     (length (history_list req)) # evs, r)))"

definition seed_history :: "env \<Rightarrow> session_store \<Rightarrow> ChatRequest \<Rightarrow> session_store" where
  \<comment> \<open>the first \<open>try\<close> block of \<open>event_stream\<close>; the stub of \<open>get_session_history\<close> raises
      and the exception is passed over\<close>
  "seed_history e store req =
     (if \<not> store_importable e then store
      else foldl (add_message (session_id req))
             (get_session_history store (session_id req))
             (map to_message (last_n 10 (history_list req))))"

definition fallback_text :: string where
  "fallback_text = ''Backend running. Install langchain-ollama for live streaming. ''"

definition event_stream :: "env \<Rightarrow> session_store \<Rightarrow> ChatRequest \<Rightarrow> gen \<times> session_store" where
  \<comment> \<open>the run of the generator, and the session store after it\<close>
  "event_stream e store req =
     (if \<not> OLLAMA_AVAILABLE e then (([Token fallback_text, Done], None), store)
      else (try_finally
              (try_except (stream_body e req) error_handler)
              ([Done], None),
            seed_history e store req))"

section \<open>app.py: the title heuristic\<close>

definition select_text :: "HistoryItem list \<Rightarrow> string" where
  \<comment> \<open>the two loops over \<open>reversed(messages)\<close>, then \<open>(text or "New Chat").strip()\<close>\<close>
  "select_text ms =
     (let text = (case find (\<lambda>m. lower (role m) = ''user'' \<and> strip (content m) \<noteq> []) (rev ms) of
                    Some m \<Rightarrow> content m | None \<Rightarrow> []);
          text = (if text = []
                  then (case find (\<lambda>m. strip (content m) \<noteq> []) (rev ms) of
                          Some m \<Rightarrow> content m | None \<Rightarrow> [])
                  else text)
      in strip (if text \<noteq> [] then text else ''New Chat''))"

definition fence :: string where
  "fence = [CHR 0x60, CHR 0x60, CHR 0x60]"

fun after_fence :: "string \<Rightarrow> string option" where
  \<comment> \<open>what follows the first fence in the text, if there is one\<close>
  "after_fence [] = None"
| "after_fence (c # cs) =
     (if take 3 (c # cs) = fence then Some (drop 3 (c # cs)) else after_fence cs)"

function remove_fences :: "string \<Rightarrow> string" where
  \<comment> \<open>\<open>re.sub(r"```[\s\S]*?```", " ", text)\<close>\<close>
  "remove_fences [] = []"
| "remove_fences (c # cs) =
     (if take 3 (c # cs) = fence then
        (case after_fence (drop 3 (c # cs)) of
           Some rest \<Rightarrow> CHR 0x20 # remove_fences rest
         | None \<Rightarrow> c # remove_fences cs)
      else c # remove_fences cs)"
  by pat_completeness auto
termination
proof (relation "measure length")
  show "wf (measure length)" by simp
next
  fix c :: char and cs rest :: string
  assume "after_fence (drop 3 (c # cs)) = Some rest"
  moreover have "after_fence s = Some r \<Longrightarrow> length r \<le> length s" for s r
    by (induction s) (auto split: if_splits)
  ultimately have "length rest \<le> length (drop 3 (c # cs))" by blast
  then show "(rest, c # cs) \<in> measure length" by simp
qed simp_all

function remove_headers :: "bool \<Rightarrow> string \<Rightarrow> string" where
  \<comment> \<open>\<open>re.sub(r"^#+\s*", "", text, flags=re.M)\<close>; the flag says that the position is
      the start of the text or follows a newline\<close>
  "remove_headers bol [] = []"
| "remove_headers bol (c # cs) =
     (if bol \<and> c = CHR ''#'' then
        remove_headers
          (takeWhile isspace (dropWhile (\<lambda>x. x = CHR ''#'') cs) \<noteq> [] \<and>
           last (takeWhile isspace (dropWhile (\<lambda>x. x = CHR ''#'') cs)) = CHR 0x0A)
          (dropWhile isspace (dropWhile (\<lambda>x. x = CHR ''#'') cs))
      else c # remove_headers (c = CHR 0x0A) cs)"
  by pat_completeness auto
termination
proof (relation "measure (\<lambda>(b, s). length s)")
  show "wf (measure (\<lambda>(b, s). length s))" by simp
next
  fix bol :: bool and c :: char and cs :: string
  have "length (dropWhile isspace (dropWhile (\<lambda>x. x = CHR ''#'') cs))
          \<le> length (dropWhile (\<lambda>x. x = CHR ''#'') cs)"
    by (rule length_dropWhile_le)
  also have "\<dots> \<le> length cs" by (rule length_dropWhile_le)
  finally show "((takeWhile isspace (dropWhile (\<lambda>x. x = CHR ''#'') cs) \<noteq> [] \<and>
           last (takeWhile isspace (dropWhile (\<lambda>x. x = CHR ''#'') cs)) = CHR 0x0A,
          dropWhile isspace (dropWhile (\<lambda>x. x = CHR ''#'') cs)), bol, c # cs)
        \<in> measure (\<lambda>(b, s). length s)"
    by simp
qed simp_all

function collapse_ws :: "string \<Rightarrow> string" where
  \<comment> \<open>\<open>re.sub(r"\s+", " ", text)\<close>\<close>
  "collapse_ws [] = []"
| "collapse_ws (c # cs) =
     (if isspace c then CHR 0x20 # collapse_ws (dropWhile isspace cs)
      else c # collapse_ws cs)"
  by pat_completeness auto
termination
proof (relation "measure length")
  show "wf (measure length)" by simp
next
  fix c :: char and cs :: string
  have "length (dropWhile isspace cs) \<le> length cs" by (rule length_dropWhile_le)
  then show "(dropWhile isspace cs, c # cs) \<in> measure length" by simp
qed simp_all

fun str_split :: "char \<Rightarrow> string \<Rightarrow> string list" where
  \<comment> \<open>\<open>text.split(sep)\<close> for a separator of one character\<close>
  "str_split sep [] = [[]]"
| "str_split sep (c # cs) =
     (if c = sep then [] # str_split sep cs
      else (case str_split sep cs of [] \<Rightarrow> [[c]] | w # ws \<Rightarrow> (c # w) # ws))"

definition slice_to :: "int \<Rightarrow> 'a list \<Rightarrow> 'a list" where
  \<comment> \<open>the slice \<open>xs[:k]\<close>; a negative \<open>k\<close> counts from the end\<close>
  "slice_to k xs =
     (if 0 \<le> k then take (nat k) xs else take (length xs - nat (- k)) xs)"

definition strip_chars :: "string \<Rightarrow> string \<Rightarrow> string" where
  \<comment> \<open>\<open>s.strip(chars)\<close>\<close>
  "strip_chars chars s =
     rev (dropWhile (\<lambda>c. c \<in> set chars) (rev (dropWhile (\<lambda>c. c \<in> set chars) s)))"

definition quote_chars :: string where
  "quote_chars = [CHR 0x22, CHR 0x27, CHR 0x60]"

definition trailing_class :: "char \<Rightarrow> bool" where
  \<comment> \<open>the class \<open>[\.,;:!?\-\s]\<close>\<close>
  "trailing_class c \<longleftrightarrow> c \<in> set ''.,;:!?-'' \<or> isspace c"

definition rstrip_punct :: "string \<Rightarrow> string" where
  \<comment> \<open>\<open>re.sub(r"[\.,;:!?\-\s]+$", "", text)\<close>\<close>
  "rstrip_punct s = rev (dropWhile trailing_class (rev s))"

definition heuristic_title :: "HistoryItem list \<Rightarrow> int \<Rightarrow> string" where
  \<comment> \<open>\<open>_heuristic_title(messages, max_words)\<close>\<close>
  "heuristic_title ms mw =
     (let text = select_text ms;
          text = remove_fences text;
          text = remove_headers True text;
          text = strip (collapse_ws text);
          words = str_split (CHR 0x20) text;
          text = (if int (length words) > mw then join '' '' (slice_to mw words) else text);
          text = strip_chars (quote_chars @ '' '') text;
          text = rstrip_punct text
      in if text \<noteq> [] then text else ''New Chat'')"

section \<open>app.py: the title endpoint\<close>

definition is_linebreak :: "char \<Rightarrow> bool" where
  \<comment> \<open>the line boundaries of \<open>str.splitlines\<close>\<close>
  "is_linebreak c \<longleftrightarrow>
     c \<in> set [CHR 0x0A, CHR 0x0B, CHR 0x0C, CHR 0x0D, CHR 0x1C, CHR 0x1D, CHR 0x1E, CHR 0x85]"

definition first_line :: "string \<Rightarrow> exn + string" where
  \<comment> \<open>\<open>txt.splitlines()[0]\<close>; the list is empty for the empty text\<close>
  "first_line txt =
     (if txt = [] then Inl (IndexError ''list index out of range'')
      else Inr (takeWhile (\<lambda>c. \<not> is_linebreak c) txt))"

definition clean_reply :: "string \<Rightarrow> exn + string" where
  \<comment> \<open>the statements of \<open>generate_title\<close> between the reply and \<open>if txt\<close>\<close>
  "clean_reply res =
     (case first_line (strip res) of
        Inl ex \<Rightarrow> Inl ex
      | Inr l \<Rightarrow> Inr (rstrip_punct (filter (\<lambda>c. c \<notin> set quote_chars) (strip l))))"

definition base_title :: "TitleRequest \<Rightarrow> string" where
  \<comment> \<open>\<open>base = _heuristic_title(req.messages, max_words=req.max_words)\<close>\<close>
  "base_title req = heuristic_title (messages req) (max_words req)"

definition pass_exception :: "string \<Rightarrow> exn \<Rightarrow> exn + string" where
  \<comment> \<open>\<open>except Exception: pass\<close> in \<open>generate_title\<close>, followed by \<open>return {"title": base}\<close>\<close>
  "pass_exception base ex = (if is_exception ex then Inr base else Inl ex)"

definition generate_title :: "env \<Rightarrow> TitleRequest \<Rightarrow> exn + string" where
  \<comment> \<open>the value under \<open>"title"\<close> in the response of \<open>generate_title(req)\<close>, or the
      exception that leaves the endpoint\<close>
  "generate_title e req =
     (let base = base_title req in
      if OLLAMA_AVAILABLE e then
        (case app_get_llm e (title_model req) False of
           Inl ex \<Rightarrow> pass_exception base ex
         | Inr llm \<Rightarrow>
             (case title_invoke e llm (last_n 8 (messages req)) of
                Replied res \<Rightarrow>
                  (case clean_reply res of
                     Inr txt \<Rightarrow> if txt \<noteq> [] then Inr txt else Inr base
                   | Inl ex \<Rightarrow> pass_exception base ex)
              | Raised ex \<Rightarrow> pass_exception base ex
              | TimedOut \<Rightarrow> Inr base))
      else Inr base)"

subsection \<open>Counting whitespace-delimited tokens\<close>

fun count_tokens :: "bool \<Rightarrow> string \<Rightarrow> nat" where
  \<comment> \<open>the number of tokens \<open>len(s.split())\<close>; the flag says that the position is inside
      a token\<close>
  "count_tokens inw [] = 0"
| "count_tokens inw (c # cs) =
     (if isspace c then count_tokens False cs
      else (if inw then 0 else 1) + count_tokens True cs)"

definition n_tokens :: "string \<Rightarrow> nat" where
  "n_tokens s = count_tokens False s"

section \<open>Example inputs\<close>

definition request_c3 :: ChatRequest where
  "request_c3 =
     \<lparr>message = ''hi'',
      history = Some
        [\<lparr>role = ''user'', content = ''m1''\<rparr>, \<lparr>role = ''Assistant'', content = ''m2''\<rparr>,
         \<lparr>role = ''user'', content = ''m3''\<rparr>, \<lparr>role = ''assistant'', content = ''m4''\<rparr>,
         \<lparr>role = ''user'', content = ''m5''\<rparr>, \<lparr>role = ''assistant'', content = ''m6''\<rparr>,
         \<lparr>role = ''system'', content = ''m7''\<rparr>, \<lparr>role = ''assistant'', content = ''m8''\<rparr>,
         \<lparr>role = ''user'', content = ''m9''\<rparr>, \<lparr>role = ''assistant'', content = ''m10''\<rparr>,
         \<lparr>role = ''user'', content = ''m11''\<rparr>],
      model = None, system = Some '' be brief'', tools_enabled = None,
      reasoning_enabled = None, user_context = None\<rparr>"

definition env_ok :: env where
  "env_ok =
     \<lparr>langchain_core_importable = True, provider_importable = True,
      langchain_ollama_importable = True, store_importable = True,
      installed = [''llama3.1'', ''mistral:7b''],
      invoke = (\<lambda>llm ms. Inr ''ok''),
      stream = (\<lambda>llm ms. [Inr ''Hel'', Inr [], Inr ''lo'', Inl (OtherError ''connection reset''),
                            Inr ''x'']),
      title_invoke = (\<lambda>llm ms. Replied ''one two three four'')\<rparr>"

definition request_hi :: ChatRequest where
  "request_hi =
     \<lparr>message = ''hi'', history = Some [\<lparr>role = ''user'', content = ''earlier''\<rparr>],
      model = None, system = None, tools_enabled = None, reasoning_enabled = None,
      user_context = None\<rparr>"

definition env_no_llama :: env where
  "env_no_llama = env_ok\<lparr>installed := [''mistral:7b'']\<rparr>"

definition env_core_only :: env where
  "env_core_only = env_ok\<lparr>langchain_ollama_importable := False\<rparr>"

definition env_timeout :: env where
  "env_timeout = env_ok\<lparr>title_invoke := (\<lambda>llm ms. TimedOut)\<rparr>"

definition scenario_d :: string where
  "scenario_d = ''```code fence```'' @ [CHR 0x0A] @ ''# Heading'' @ [CHR 0x0A] @ ''Deploy the service''"

definition title_request_a :: TitleRequest where
  "title_request_a =
     \<lparr>messages = [\<lparr>role = ''user'', content = ''Explain binary search''\<rparr>],
      title_model = None, max_words = 6\<rparr>"

definition title_request_two :: TitleRequest where
  "title_request_two =
     \<lparr>messages = [\<lparr>role = ''user'', content = ''hi''\<rparr>], title_model = None, max_words = 2\<rparr>"

definition env_bad_str :: env where
  \<comment> \<open>the second chunk raises an exception whose \<open>__str__\<close> raises\<close>
  "env_bad_str =
     env_ok\<lparr>stream := (\<lambda>llm ms. [Inr ''Hel'', Inl (StrRaises (OtherError ''no message''))])\<rparr>"

definition env_interrupt :: env where
  \<comment> \<open>the second chunk raises \<open>KeyboardInterrupt\<close>\<close>
  "env_interrupt =
     env_ok\<lparr>stream := (\<lambda>llm ms. [Inr ''Hel'', Inl (NotException ''KeyboardInterrupt'')])\<rparr>"

definition quoted_reply :: string where
  "quoted_reply = [CHR 0x20, CHR 0x22] @ ''Binary Search Basics'' @ [CHR 0x22] @ ''.''
                    @ [CHR 0x0A] @ ''second line''"

definition env_quoted :: env where
  "env_quoted = env_ok\<lparr>title_invoke := (\<lambda>llm ms. Replied quoted_reply)\<rparr>"

section \<open>The model factory: resolution and failure\<close>

lemma pick_candidate_find:
  "pick_candidate names cands = find (\<lambda>c. c \<in> set names) cands"
  by (induction cands) simp_all

lemma sublist_mid: "sublist x ys \<Longrightarrow> sublist x (ps @ ys @ ss)"
proof -
  assume "sublist x ys"
  then obtain p s where "ys = p @ x @ s" by (auto simp: sublist_def)
  then have "ps @ ys @ ss = (ps @ p) @ x @ (s @ ss)" by simp
  then show ?thesis unfolding sublist_def by blast
qed

lemma sublist_join: "x \<in> set xs \<Longrightarrow> sublist x (join sep xs)"
proof (induction sep xs rule: join.induct)
  case (3 sep a b ys)
  show ?case
  proof (cases "x = a")
    case True
    have "join sep (a # b # ys) = [] @ a @ (sep @ join sep (b # ys))" by simp
    then show ?thesis unfolding True sublist_def by blast
  next
    case False
    with 3 have "sublist x (join sep (b # ys))" by simp
    from sublist_mid[OF this, of "a @ sep" "[]"] show ?thesis by simp
  qed
qed simp_all

lemma sublist_repr_list: "n \<in> set names \<Longrightarrow> sublist (repr_str n) (repr_list names)"
proof -
  assume "n \<in> set names"
  then have "sublist (repr_str n) (join '', '' (map repr_str names))"
    by (intro sublist_join) simp
  from sublist_mid[OF this, of "''[''" "'']''"] show ?thesis
    by (simp add: repr_list_def)
qed

lemma sublist_third: "sublist x (a @ b @ x @ r)"
proof -
  have "a @ b @ x @ r = (a @ b) @ x @ r" by simp
  then show ?thesis unfolding sublist_def by blast
qed

lemma sublist_not_installed_requested:
  "sublist requested (not_installed_message requested names)"
  unfolding not_installed_message_def by (rule sublist_third)

lemma sublist_pre: "sublist x ys \<Longrightarrow> sublist x (ps @ ys)"
  using sublist_mid[of x ys ps "[]"] by simp

lemma sublist_not_installed_names:
  assumes "n \<in> set names"
  shows "sublist (repr_str n) (not_installed_message requested names)"
  unfolding not_installed_message_def
  by (rule sublist_pre)+ (rule sublist_repr_list[OF assms])

lemma repr_char_plain: "plain c \<Longrightarrow> repr_char (CHR 0x27) c = [c]"
  by (auto simp: plain_def repr_char_def printable_def Let_def)

lemma concat_repr_plain:
  "\<forall>c \<in> set s. plain c \<Longrightarrow> concat (map (repr_char (CHR 0x27)) s) = s"
  by (induction s) (simp_all add: repr_char_plain)

lemma repr_str_plain:
  assumes "\<forall>c \<in> set s. plain c"
  shows "repr_str s = [CHR 0x27] @ s @ [CHR 0x27]"
proof -
  have "CHR 0x27 \<notin> set s" using assms by (auto simp: plain_def)
  then have "repr_quote s = CHR 0x27" by (simp add: repr_quote_def)
  then show ?thesis using concat_repr_plain[OF assms] by (simp add: repr_str_def Let_def)
qed

text \<open>
  Claim C6. When no model is requested (\<open>None\<close> or the empty string), \<open>get_llm\<close> does not
  fail: it returns a handle for the first identifier of the preference list that is
  installed; if none is, for the first installed name; and if nothing is installed, for
  \<open>llama3.1\<close>.
\<close>

theorem get_llm_default_resolution:
  assumes "mdl = None \<or> mdl = Some []"
  shows "get_llm True names mdl strm =
         Inr (ChatOllama
           (case find (\<lambda>c. c \<in> set names)
                   [''llama3.1:8b'', ''llama3.1'', ''llama3:8b'', ''qwen2.5:7b'', ''mistral:7b''] of
              Some c \<Rightarrow> c
            | None \<Rightarrow> (if names = [] then ''llama3.1'' else hd names)) strm)"
proof -
  have "get_llm True names mdl strm = Inr (ChatOllama (select_default names) strm)"
    using assms by (auto simp: get_llm_def)
  moreover have "select_default names =
      (case find (\<lambda>c. c \<in> set names) default_candidates of
         Some c \<Rightarrow> c | None \<Rightarrow> (if names = [] then ''llama3.1'' else hd names))"
    unfolding select_default_def pick_candidate_find
    by (cases names) (simp_all split: option.splits)
  ultimately show ?thesis by (simp add: default_candidates_def)
qed

theorem get_llm_default_resolution_witness:
  "get_llm True [''phi3'', ''mistral:7b'', ''llama3:8b''] None True
     = Inr (ChatOllama ''llama3:8b'' True)
   \<and> get_llm True [''phi3'', ''gemma''] (Some []) False = Inr (ChatOllama ''phi3'' False)
   \<and> get_llm True [] None True = Inr (ChatOllama ''llama3.1'' True)"
  using get_llm_default_resolution [of None "[''phi3'', ''mistral:7b'', ''llama3:8b'']" True]
    get_llm_default_resolution [of "Some []" "[''phi3'', ''gemma'']" False]
    get_llm_default_resolution [of None "[]" True]
  by simp

text \<open>
  Claim C2. A requested identifier that is not installed makes \<open>get_llm\<close> fail with a
  \<open>RuntimeError\<close> whose message contains the requested identifier and the \<open>repr\<close> of
  every installed name (the name itself between quotes, when its characters are plain);
  no handle for another model is returned.
\<close>

theorem get_llm_not_installed:
  assumes "requested \<noteq> []" and "requested \<notin> set names"
  shows "get_llm True names (Some requested) strm
           = Inl (RuntimeError (not_installed_message requested names))
         \<and> not_installed_message requested names
           = ''Requested model '' @ [CHR 0x27] @ requested @ [CHR 0x27] @
             '' is not installed in Ollama. Install it (e.g., 'ollama pull '' @ requested @
             [CHR 0x27] @ '') or select an installed model: '' @ repr_list names
         \<and> sublist requested (not_installed_message requested names)
         \<and> (\<forall>n \<in> set names. sublist (repr_str n) (not_installed_message requested names))
         \<and> (\<forall>n \<in> set names. (\<forall>c \<in> set n. plain c) \<longrightarrow>
               sublist ([CHR 0x27] @ n @ [CHR 0x27]) (not_installed_message requested names))"
proof (intro conjI ballI impI)
  show "get_llm True names (Some requested) strm
           = Inl (RuntimeError (not_installed_message requested names))"
    using assms by (simp add: get_llm_def)
  show "not_installed_message requested names
           = ''Requested model '' @ [CHR 0x27] @ requested @ [CHR 0x27] @
             '' is not installed in Ollama. Install it (e.g., 'ollama pull '' @ requested @
             [CHR 0x27] @ '') or select an installed model: '' @ repr_list names"
    by (simp add: not_installed_message_def)
  show "sublist requested (not_installed_message requested names)"
    by (rule sublist_not_installed_requested)
next
  fix n assume "n \<in> set names"
  then show "sublist (repr_str n) (not_installed_message requested names)"
    by (rule sublist_not_installed_names)
next
  fix n assume n: "n \<in> set names" and p: "\<forall>c \<in> set n. plain c"
  from sublist_not_installed_names[OF n, of requested] repr_str_plain[OF p]
  show "sublist ([CHR 0x27] @ n @ [CHR 0x27]) (not_installed_message requested names)"
    by simp
qed

lemma repr_list_example:
  "repr_list [''llama3.1'', ''mistral:7b''] = [CHR 0x5B, CHR 0x27] @ ''llama3.1'' @ [CHR 0x27] @ '', '' @ [CHR 0x27] @ ''mistral:7b'' @ [CHR 0x27, CHR 0x5D]"
  by code_simp

theorem get_llm_not_installed_witness:
  "get_llm True [''llama3.1'', ''mistral:7b''] (Some ''gpt-99'') True
     = Inl (RuntimeError
         (''Requested model 'gpt-99' is not installed in Ollama. Install it (e.g., 'ollama pull gpt-99') or select an installed model: ['llama3.1', 'mistral:7b'' @ [CHR 0x27, CHR 0x5D]))"
  using get_llm_not_installed [of "''gpt-99''" "[''llama3.1'', ''mistral:7b'']" True]
  by (simp add: repr_list_example)

section \<open>Message assembly\<close>

lemma strip_nonempty_iff: "strip s \<noteq> [] \<longleftrightarrow> (\<exists>c \<in> set s. \<not> isspace c)"
proof -
  let ?d = "dropWhile isspace s"
  have "strip s = [] \<longleftrightarrow> (\<forall>c \<in> set ?d. isspace c)"
    by (simp add: strip_def dropWhile_eq_Nil_conv)
  also have "\<dots> \<longleftrightarrow> ?d = []"
  proof
    assume all: "\<forall>c \<in> set ?d. isspace c"
    show "?d = []"
    proof (rule ccontr)
      assume ne: "?d \<noteq> []"
      then have "\<not> isspace (hd ?d)" by (rule hd_dropWhile)
      moreover from ne have "hd ?d \<in> set ?d" by simp
      ultimately show False using all by blast
    qed
  qed (auto dest: set_dropWhileD)
  also have "\<dots> \<longleftrightarrow> (\<forall>c \<in> set s. isspace c)"
    by (simp add: dropWhile_eq_Nil_conv)
  finally show ?thesis by blast
qed

lemma length_last_n: "length (last_n n xs) = min (length xs) n"
  by (simp add: last_n_def)

lemma nth_last_n:
  "i < min (length xs) n \<Longrightarrow> last_n n xs ! i = xs ! (length xs - min (length xs) n + i)"
  by (auto simp: last_n_def min_def)

lemma last_n_rev_take: "last_n n xs = rev (take n (rev xs))"
  by (simp add: last_n_def take_rev)

text \<open>
  Claim C3. The message list built for the model has length (1 if the system text has a
  character that is not whitespace, else 0) + min(len(history), 10) + 1: first the system
  entry when there is one, then the last ten history entries in order, an entry whose
  lower-cased role is \<open>assistant\<close> as an \<open>AIMessage\<close> and any other as a
  \<open>HumanMessage\<close>, and last the new message as a \<open>HumanMessage\<close>.
\<close>

theorem build_messages_shape:
  fixes req :: ChatRequest
  shows "length (build_messages req)
           = (if \<exists>c \<in> set (system_text req). \<not> isspace c then 1 else 0)
             + min (length (history_list req)) 10 + 1
       \<and> (\<forall>i < min (length (history_list req)) 10.
            build_messages req ! ((if \<exists>c \<in> set (system_text req). \<not> isspace c then 1 else 0) + i)
              = (if lower (role (history_list req ! (length (history_list req)
                                  - min (length (history_list req)) 10 + i))) = ''assistant''
                 then AIMessage (content (history_list req ! (length (history_list req)
                                  - min (length (history_list req)) 10 + i)))
                 else HumanMessage (content (history_list req ! (length (history_list req)
                                  - min (length (history_list req)) 10 + i)))))
       \<and> last (build_messages req) = HumanMessage (message req)
       \<and> ((\<exists>c \<in> set (system_text req). \<not> isspace c) \<longrightarrow>
            hd (build_messages req) = HumanMessage (''[SYSTEM]'' @ [CHR 0x0A] @ system_text req))"
proof -
  let ?k = "if \<exists>c \<in> set (system_text req). \<not> isspace c then 1 else 0 :: nat"
  let ?hs = "history_list req"
  define sysl where "sysl = (if strip (system_text req) \<noteq> []
              then [HumanMessage (''[SYSTEM]'' @ [CHR 0x0A] @ system_text req)] else [])"
  define mid where "mid = map to_message (last_n 10 ?hs)"
  define fin where "fin = HumanMessage (message req)"
  have bm: "build_messages req = sysl @ mid @ [fin]"
    by (simp add: build_messages_def sysl_def mid_def fin_def)
  have lsys: "length sysl = ?k" by (simp add: sysl_def strip_nonempty_iff)
  have lmid: "length mid = min (length ?hs) 10" by (simp add: mid_def length_last_n)
  have len: "length (build_messages req) = ?k + min (length ?hs) 10 + 1"
    unfolding bm by (simp only: length_append lsys lmid) simp
  have nth: "build_messages req ! (?k + i) = to_message (?hs ! (length ?hs - min (length ?hs) 10 + i))"
    if "i < min (length ?hs) 10" for i
  proof -
    have "(sysl @ mid @ [fin]) ! (length sysl + i) = (mid @ [fin]) ! i"
      by (rule nth_append_length_plus)
    also have "\<dots> = mid ! i" using that lmid by (simp add: nth_append)
    also have "\<dots> = to_message (last_n 10 ?hs ! i)"
      using that by (simp add: mid_def length_last_n)
    also have "\<dots> = to_message (?hs ! (length ?hs - min (length ?hs) 10 + i))"
      using nth_last_n[OF that] by simp
    finally show ?thesis unfolding bm lsys .
  qed
  have lst: "last (build_messages req) = HumanMessage (message req)"
    unfolding bm by (simp add: fin_def)
  have hd: "hd (build_messages req) = HumanMessage (''[SYSTEM]'' @ [CHR 0x0A] @ system_text req)"
    if "\<exists>c \<in> set (system_text req). \<not> isspace c"
  proof -
    from that have "sysl = [HumanMessage (''[SYSTEM]'' @ [CHR 0x0A] @ system_text req)]"
      unfolding sysl_def strip_nonempty_iff by (rule if_P)
    then show ?thesis unfolding bm by simp
  qed
  show ?thesis
  proof (intro conjI allI impI)
    show "length (build_messages req) = ?k + min (length ?hs) 10 + 1" by (rule len)
    show "last (build_messages req) = HumanMessage (message req)" by (rule lst)
  next
    fix i assume "i < min (length ?hs) 10"
    from nth[OF this] show "build_messages req ! (?k + i)
              = (if lower (role (?hs ! (length ?hs - min (length ?hs) 10 + i))) = ''assistant''
                 then AIMessage (content (?hs ! (length ?hs - min (length ?hs) 10 + i)))
                 else HumanMessage (content (?hs ! (length ?hs - min (length ?hs) 10 + i))))"
      unfolding to_message_def .
  next
    assume "\<exists>c \<in> set (system_text req). \<not> isspace c"
    then show "hd (build_messages req) = HumanMessage (''[SYSTEM]'' @ [CHR 0x0A] @ system_text req)"
      by (rule hd)
  qed
qed


theorem build_messages_shape_witness:
  "length (build_messages request_c3) = 12
   \<and> build_messages request_c3 ! 1 = AIMessage ''m2''
   \<and> last (build_messages request_c3) = HumanMessage ''hi''
   \<and> hd (build_messages request_c3) = HumanMessage (''[SYSTEM]'' @ [CHR 0x0A] @ '' be brief'')"
proof -
  have A: "\<exists>c \<in> set (system_text request_c3). \<not> isspace c"
    by (simp add: request_c3_def system_text_def isspace_def)
  have L: "length (history_list request_c3) = 11"
    by (simp add: request_c3_def history_list_def)
  have H: "history_list request_c3 ! 1 = \<lparr>role = ''Assistant'', content = ''m2''\<rparr>"
    by (simp add: request_c3_def history_list_def)
  have R: "lower ''Assistant'' = ''assistant''" by code_simp
  have S: "system_text request_c3 = '' be brief''"
    by (simp add: request_c3_def system_text_def)
  have M: "message request_c3 = ''hi''" by (simp add: request_c3_def)
  from build_messages_shape[of request_c3]
  have 1: "length (build_messages request_c3) = 12"
    and 2: "\<forall>i<10. build_messages request_c3 ! (1 + i)
              = (if lower (role (history_list request_c3 ! (1 + i))) = ''assistant''
                 then AIMessage (content (history_list request_c3 ! (1 + i)))
                 else HumanMessage (content (history_list request_c3 ! (1 + i))))"
    and 3: "last (build_messages request_c3) = HumanMessage ''hi''"
    and 4: "hd (build_messages request_c3) = HumanMessage (''[SYSTEM]'' @ [CHR 0x0A] @ '' be brief'')"
    using A unfolding L S M by simp_all
  from 2 have "build_messages request_c3 ! (1 + 0)
              = (if lower (role (history_list request_c3 ! (1 + 0))) = ''assistant''
                 then AIMessage (content (history_list request_c3 ! (1 + 0)))
                 else HumanMessage (content (history_list request_c3 ! (1 + 0))))"
    by (rule allE [where x = 0]) simp
  then have "build_messages request_c3 ! 1 = AIMessage ''m2''"
    using H R by simp
  with 1 3 4 show ?thesis by simp
qed


section \<open>Streaming chat: the event sequence\<close>

lemma relay_raises:
  "relay (map Inr txts @ Inl ex # rest) = (map Token (filter (\<lambda>t. t \<noteq> []) txts), Some ex)"
  by (induction txts) simp_all

lemma relay_exhausted:
  "relay (map Inr txts) = (map Token (filter (\<lambda>t. t \<noteq> []) txts), None)"
  by (induction txts) simp_all

lemma relay_tokens:
  "relay cs = (evs, r) \<Longrightarrow> x \<in> set evs \<Longrightarrow> \<exists>t. x = Token t \<and> t \<noteq> []"
proof (induction cs arbitrary: evs rule: relay.induct)
  case (3 tx rest)
  show ?case
  proof (cases "tx = []")
    case True
    with 3 show ?thesis by simp
  next
    case False
    obtain evs' r' where rr: "relay rest = (evs', r')" by (cases "relay rest")
    with False "3.prems" have evs: "evs = Token tx # evs'" and "r = r'" by simp_all
    show ?thesis
    proof (cases "x = Token tx")
      case True
      with False show ?thesis by blast
    next
      case ne: False
      with evs "3.prems" have "x \<in> set evs'" by simp
      with "3.IH"(2)[OF False] rr \<open>r = r'\<close> show ?thesis by blast
    qed
  qed
qed simp_all

lemma stream_body_events:
  assumes "stream_body e req = (evs, r)" and "x \<in> set evs"
  shows "x \<noteq> Done \<and> (\<forall>m. x \<noteq> Error m)"
proof (cases "app_get_llm e (Some (model_or_default req)) True")
  case (Inl ex)
  with assms show ?thesis by (simp add: stream_body_def)
next
  case (Inr llm)
  obtain evs' r' where rr: "relay (stream e llm (build_messages req)) = (evs', r')"
    by (cases "relay (stream e llm (build_messages req))")
  with Inr assms(1) obtain mt where evs: "evs = mt # evs'" and mt: "\<exists>a b. mt = Meta a b"
    by (auto simp: stream_body_def)
  show ?thesis
  proof (cases "x = mt")
    case True
    with mt show ?thesis by auto
  next
    case False
    with evs assms(2) have "x \<in> set evs'" by simp
    from relay_tokens[OF rr this] show ?thesis by auto
  qed
qed

lemma event_stream_fallback:
  "\<not> OLLAMA_AVAILABLE e \<Longrightarrow>
     event_stream e st req = (([Token fallback_text, Done], None), st)"
  by (simp add: event_stream_def)

lemma event_stream_completes:
  "OLLAMA_AVAILABLE e \<Longrightarrow> stream_body e req = (evs, None) \<Longrightarrow>
     event_stream e st req = ((evs @ [Done], None), seed_history e st req)"
  by (simp add: event_stream_def try_except_def try_finally_def)

lemma event_stream_caught:
  "OLLAMA_AVAILABLE e \<Longrightarrow> stream_body e req = (evs, Some ex) \<Longrightarrow>
   is_exception ex \<Longrightarrow> str_of ex = Inr m \<Longrightarrow>
     event_stream e st req = ((evs @ [Error m, Done], None), seed_history e st req)"
  by (simp add: event_stream_def try_except_def try_finally_def error_handler_def)

lemma event_stream_str_raises:
  "OLLAMA_AVAILABLE e \<Longrightarrow> stream_body e req = (evs, Some ex) \<Longrightarrow>
   is_exception ex \<Longrightarrow> str_of ex = Inl ex' \<Longrightarrow>
     event_stream e st req = ((evs @ [Done], Some ex'), seed_history e st req)"
  by (simp add: event_stream_def try_except_def try_finally_def error_handler_def)

lemma event_stream_uncaught:
  "OLLAMA_AVAILABLE e \<Longrightarrow> stream_body e req = (evs, Some ex) \<Longrightarrow> \<not> is_exception ex \<Longrightarrow>
     event_stream e st req = ((evs @ [Done], Some ex), seed_history e st req)"
  by (simp add: event_stream_def try_except_def try_finally_def)

lemma event_stream_shape:
  assumes "OLLAMA_AVAILABLE e" and "stream_body e req = (evs, r)"
  shows "fst (fst (event_stream e st req)) = evs @ [Done]
         \<or> (\<exists>m. fst (fst (event_stream e st req)) = evs @ [Error m, Done])"
proof (cases r)
  case None
  with assms show ?thesis by (simp add: event_stream_completes)
next
  case (Some ex)
  show ?thesis
  proof (cases "is_exception ex")
    case False
    with assms Some show ?thesis by (simp add: event_stream_uncaught)
  next
    case True
    show ?thesis
    proof (cases "str_of ex")
      case (Inl ex')
      with assms Some True show ?thesis by (simp add: event_stream_str_raises)
    next
      case (Inr m)
      with assms Some True show ?thesis by (simp add: event_stream_caught)
    qed
  qed
qed

lemma stream_body_llm:
  assumes "app_get_llm e (Some (model_or_default req)) True = Inr llm"
  shows "stream_body e req
           = (case relay (stream e llm (build_messages req)) of
                (evs, r) \<Rightarrow> (Meta (llm_model llm) (length (history_list req)) # evs, r))"
proof -
  have "llm_model llm \<noteq> []"
    using assms by (auto simp: app_get_llm_def get_llm_def model_or_default_def
                      split: if_splits option.splits)
  with assms show ?thesis by (simp add: stream_body_def)
qed

lemma app_get_llm_error:
  "app_get_llm e mdl strm = Inl ex \<Longrightarrow> \<exists>m. ex = RuntimeError m"
  by (auto simp: app_get_llm_def get_llm_def split: if_splits option.splits)

lemma event_stream_normal:
  assumes "OLLAMA_AVAILABLE e"
    and "app_get_llm e (Some (model_or_default req)) True = Inr llm"
    and "stream e llm (build_messages req) = map Inr txts"
  shows "fst (event_stream e st req)
           = (Meta (llm_model llm) (length (history_list req))
                # map Token (filter (\<lambda>t. t \<noteq> []) txts) @ [Done], None)"
proof -
  from assms(3) have "stream_body e req
      = (Meta (llm_model llm) (length (history_list req))
           # map Token (filter (\<lambda>t. t \<noteq> []) txts), None)"
    by (simp add: stream_body_llm[OF assms(2)] relay_exhausted)
  from event_stream_completes[OF assms(1) this] show ?thesis by simp
qed

lemma event_stream_str_raises_run:
  assumes "OLLAMA_AVAILABLE e"
    and "app_get_llm e (Some (model_or_default req)) True = Inr llm"
    and "stream e llm (build_messages req) = map Inr txts @ Inl (StrRaises ex') # rest"
  shows "fst (event_stream e st req)
           = (Meta (llm_model llm) (length (history_list req))
                # map Token (filter (\<lambda>t. t \<noteq> []) txts) @ [Done], Some ex')"
proof -
  from assms(3) have "stream_body e req
      = (Meta (llm_model llm) (length (history_list req))
           # map Token (filter (\<lambda>t. t \<noteq> []) txts), Some (StrRaises ex'))"
    by (simp add: stream_body_llm[OF assms(2)] relay_raises)
  from event_stream_str_raises[OF assms(1) this, of ex'] show ?thesis by simp
qed

text \<open>
  Claim C1. On every path of \<open>event_stream\<close> (the fallback when the flag is false, normal
  completion, and an exception, caught or not) the events end with \<open>Done\<close> and no \<open>Done\<close>
  occurs before the last event. No exception leaves the generator when the \<open>try\<close> block
  raises none, or raises an \<open>Exception\<close> whose \<open>str(e)\<close> is computed.
\<close>

theorem event_stream_ends_with_done:
  "(\<exists>pre. fst (fst (event_stream e st req)) = pre @ [Done] \<and> Done \<notin> set pre)
   \<and> ((\<forall>ex. snd (stream_body e req) = Some ex \<longrightarrow>
              is_exception ex \<and> (\<exists>m. str_of ex = Inr m)) \<longrightarrow>
        snd (fst (event_stream e st req)) = None)"
proof (intro conjI impI)
  show "\<exists>pre. fst (fst (event_stream e st req)) = pre @ [Done] \<and> Done \<notin> set pre"
  proof (cases "OLLAMA_AVAILABLE e")
    case False
    then have "fst (fst (event_stream e st req)) = [Token fallback_text] @ [Done]"
      by (simp add: event_stream_fallback)
    moreover have "Done \<notin> set [Token fallback_text]" by simp
    ultimately show ?thesis by blast
  next
    case True
    obtain evs r where sb: "stream_body e req = (evs, r)" by (cases "stream_body e req")
    have nd: "Done \<notin> set evs" using stream_body_events[OF sb] by blast
    from event_stream_shape[OF True sb, of st] show ?thesis
    proof
      assume "fst (fst (event_stream e st req)) = evs @ [Done]"
      with nd show ?thesis by blast
    next
      assume "\<exists>m. fst (fst (event_stream e st req)) = evs @ [Error m, Done]"
      then obtain m where "fst (fst (event_stream e st req)) = (evs @ [Error m]) @ [Done]"
        by auto
      moreover from nd have "Done \<notin> set (evs @ [Error m])" by simp
      ultimately show ?thesis by blast
    qed
  qed
next
  assume a: "\<forall>ex. snd (stream_body e req) = Some ex \<longrightarrow>
              is_exception ex \<and> (\<exists>m. str_of ex = Inr m)"
  show "snd (fst (event_stream e st req)) = None"
  proof (cases "OLLAMA_AVAILABLE e")
    case False
    then show ?thesis by (simp add: event_stream_fallback)
  next
    case True
    obtain evs r where sb: "stream_body e req = (evs, r)" by (cases "stream_body e req")
    show ?thesis
    proof (cases r)
      case None
      with True sb show ?thesis by (simp add: event_stream_completes)
    next
      case (Some ex)
      with a sb obtain m where "is_exception ex" and "str_of ex = Inr m" by auto
      with True sb Some show ?thesis by (simp add: event_stream_caught)
    qed
  qed
qed

theorem event_stream_ends_with_done_witness:
  "snd (stream_body env_ok request_hi) = Some (OtherError ''connection reset'')
   \<and> (\<exists>pre. fst (fst (event_stream env_ok Map.empty request_hi)) = pre @ [Done]
            \<and> Done \<notin> set pre)
   \<and> snd (fst (event_stream env_ok Map.empty request_hi)) = None"
proof -
  have sb: "snd (stream_body env_ok request_hi) = Some (OtherError ''connection reset'')"
    by (simp add: stream_body_def app_get_llm_def get_llm_def model_or_default_def
          env_ok_def request_hi_def)
  then have "\<forall>ex. snd (stream_body env_ok request_hi) = Some ex \<longrightarrow>
              is_exception ex \<and> (\<exists>m. str_of ex = Inr m)"
    by simp
  with event_stream_ends_with_done[of env_ok Map.empty request_hi] sb
  show ?thesis by blast
qed

text \<open>
  Claim C8, as amended. With the flag true, a failure of \<open>get_llm\<close> is a \<open>RuntimeError\<close>
  and the stream is one \<open>Error\<close> event with its message, then \<open>Done\<close>, and nothing leaves
  the generator. An exception raised by the iteration over \<open>llm.stream(msgs)\<close> after any
  number of chunks, when it is an \<open>Exception\<close> whose \<open>str(e)\<close> is computed, gives the meta
  event, the tokens of the non-empty chunks, one \<open>Error\<close> event carrying \<open>str(e)\<close>, then
  \<open>Done\<close>, and nothing leaves the generator. When it is not an \<open>Exception\<close> there is no
  \<open>Error\<close> event: \<open>Done\<close> follows the tokens and the exception leaves the generator.
\<close>

theorem stream_failure_one_error:
  assumes "OLLAMA_AVAILABLE e"
  shows "(app_get_llm e (Some (model_or_default req)) True = Inl ex \<longrightarrow>
            (\<exists>m. ex = RuntimeError m
                \<and> fst (event_stream e st req) = ([Error m, Done], None)))
       \<and> (app_get_llm e (Some (model_or_default req)) True = Inr llm
            \<and> stream e llm (build_messages req) = map Inr txts @ Inl ex # rest
            \<and> is_exception ex \<and> str_of ex = Inr m \<longrightarrow>
            fst (event_stream e st req)
              = (Meta (llm_model llm) (length (history_list req))
                   # map Token (filter (\<lambda>t. t \<noteq> []) txts) @ [Error m, Done], None))
       \<and> (app_get_llm e (Some (model_or_default req)) True = Inr llm
            \<and> stream e llm (build_messages req) = map Inr txts @ Inl ex # rest
            \<and> \<not> is_exception ex \<longrightarrow>
            fst (event_stream e st req)
              = (Meta (llm_model llm) (length (history_list req))
                   # map Token (filter (\<lambda>t. t \<noteq> []) txts) @ [Done], Some ex))"
proof (intro conjI impI)
  assume a: "app_get_llm e (Some (model_or_default req)) True = Inl ex"
  then obtain m where m: "ex = RuntimeError m" using app_get_llm_error by blast
  from a have "stream_body e req = ([], Some ex)" by (simp add: stream_body_def)
  from event_stream_caught[OF assms this, of m st] m
  show "\<exists>m. ex = RuntimeError m \<and> fst (event_stream e st req) = ([Error m, Done], None)"
    by simp
next
  assume a: "app_get_llm e (Some (model_or_default req)) True = Inr llm
            \<and> stream e llm (build_messages req) = map Inr txts @ Inl ex # rest
            \<and> is_exception ex \<and> str_of ex = Inr m"
  then have g: "app_get_llm e (Some (model_or_default req)) True = Inr llm"
    and s: "stream e llm (build_messages req) = map Inr txts @ Inl ex # rest"
    and i: "is_exception ex" and m: "str_of ex = Inr m" by simp_all
  from s have "stream_body e req
      = (Meta (llm_model llm) (length (history_list req))
           # map Token (filter (\<lambda>t. t \<noteq> []) txts), Some ex)"
    by (simp add: stream_body_llm[OF g] relay_raises)
  from event_stream_caught[OF assms this i m]
  show "fst (event_stream e st req)
              = (Meta (llm_model llm) (length (history_list req))
                   # map Token (filter (\<lambda>t. t \<noteq> []) txts) @ [Error m, Done], None)"
    by simp
next
  assume a: "app_get_llm e (Some (model_or_default req)) True = Inr llm
            \<and> stream e llm (build_messages req) = map Inr txts @ Inl ex # rest
            \<and> \<not> is_exception ex"
  then have g: "app_get_llm e (Some (model_or_default req)) True = Inr llm"
    and s: "stream e llm (build_messages req) = map Inr txts @ Inl ex # rest"
    and i: "\<not> is_exception ex" by simp_all
  from s have "stream_body e req
      = (Meta (llm_model llm) (length (history_list req))
           # map Token (filter (\<lambda>t. t \<noteq> []) txts), Some ex)"
    by (simp add: stream_body_llm[OF g] relay_raises)
  from event_stream_uncaught[OF assms this i]
  show "fst (event_stream e st req)
              = (Meta (llm_model llm) (length (history_list req))
                   # map Token (filter (\<lambda>t. t \<noteq> []) txts) @ [Done], Some ex)"
    by simp
qed

lemma request_hi_handle:
  "OLLAMA_AVAILABLE (env_ok\<lparr>stream := f\<rparr>)"
  "app_get_llm (env_ok\<lparr>stream := f\<rparr>) (Some (model_or_default request_hi)) True
     = Inr (ChatOllama ''llama3.1'' True)"
  "history_list request_hi = [\<lparr>role = ''user'', content = ''earlier''\<rparr>]"
  by (simp_all add: OLLAMA_AVAILABLE_def app_get_llm_def get_llm_def model_or_default_def
        history_list_def env_ok_def request_hi_def)

theorem stream_failure_one_error_witness:
  "fst (event_stream env_ok Map.empty request_hi)
     = ([Meta ''llama3.1'' 1, Token ''Hel'', Token ''lo'', Error ''connection reset'', Done], None)
   \<and> fst (event_stream env_ok Map.empty (request_hi\<lparr>model := Some ''gpt-99''\<rparr>))
     = ([Error (not_installed_message ''gpt-99'' [''llama3.1'', ''mistral:7b'']), Done], None)
   \<and> fst (event_stream env_interrupt Map.empty request_hi)
     = ([Meta ''llama3.1'' 1, Token ''Hel'', Done], Some (NotException ''KeyboardInterrupt''))"
proof -
  have av: "OLLAMA_AVAILABLE env_ok" by (simp add: OLLAMA_AVAILABLE_def env_ok_def)
  have g: "app_get_llm env_ok (Some (model_or_default request_hi)) True
             = Inr (ChatOllama ''llama3.1'' True)"
    by (simp add: app_get_llm_def get_llm_def model_or_default_def env_ok_def request_hi_def)
  have s: "stream env_ok (ChatOllama ''llama3.1'' True) (build_messages request_hi)
             = map Inr [''Hel'', [], ''lo''] @ Inl (OtherError ''connection reset'') # [Inr ''x'']"
    by (simp add: env_ok_def)
  have h: "history_list request_hi = [\<lparr>role = ''user'', content = ''earlier''\<rparr>]"
    by (simp add: history_list_def request_hi_def)
  from stream_failure_one_error[OF av, where req = request_hi and st = Map.empty
      and llm = "ChatOllama ''llama3.1'' True" and txts = "[''Hel'', [], ''lo'']"
      and ex = "OtherError ''connection reset''" and rest = "[Inr ''x'']"
      and m = "''connection reset''", THEN conjunct2, THEN conjunct1] g s
  have 1: "fst (event_stream env_ok Map.empty request_hi)
     = ([Meta ''llama3.1'' 1, Token ''Hel'', Token ''lo'', Error ''connection reset'', Done], None)"
    by (simp add: h)
  have g2: "app_get_llm env_ok (Some (model_or_default (request_hi\<lparr>model := Some ''gpt-99''\<rparr>))) True
             = Inl (RuntimeError (not_installed_message ''gpt-99'' [''llama3.1'', ''mistral:7b'']))"
    by (simp add: app_get_llm_def get_llm_def model_or_default_def env_ok_def request_hi_def)
  from stream_failure_one_error[OF av, where req = "request_hi\<lparr>model := Some ''gpt-99''\<rparr>"
      and st = Map.empty
      and ex = "RuntimeError (not_installed_message ''gpt-99'' [''llama3.1'', ''mistral:7b''])",
      THEN conjunct1] g2
  have 2: "fst (event_stream env_ok Map.empty (request_hi\<lparr>model := Some ''gpt-99''\<rparr>))
     = ([Error (not_installed_message ''gpt-99'' [''llama3.1'', ''mistral:7b'']), Done], None)"
    by simp
  have s3: "stream env_interrupt (ChatOllama ''llama3.1'' True) (build_messages request_hi)
             = map Inr [''Hel''] @ Inl (NotException ''KeyboardInterrupt'') # []"
    by (simp add: env_interrupt_def)
  from stream_failure_one_error[OF request_hi_handle(1), where req = request_hi
      and st = Map.empty and llm = "ChatOllama ''llama3.1'' True" and txts = "[''Hel'']"
      and ex = "NotException ''KeyboardInterrupt''" and rest = "[]",
      THEN conjunct2, THEN conjunct2] request_hi_handle(2) s3
  have 3: "fst (event_stream env_interrupt Map.empty request_hi)
     = ([Meta ''llama3.1'' 1, Token ''Hel'', Done], Some (NotException ''KeyboardInterrupt''))"
    unfolding env_interrupt_def by (simp add: h)
  from 1 2 3 show ?thesis by blast
qed

lemma event_stream_interrupt_run:
  "fst (event_stream env_interrupt Map.empty request_hi)
     = ([Meta ''llama3.1'' 1, Token ''Hel'', Done], Some (NotException ''KeyboardInterrupt''))"
proof -
  have "stream_body env_interrupt request_hi
          = ([Meta ''llama3.1'' 1, Token ''Hel''], Some (NotException ''KeyboardInterrupt''))"
    unfolding env_interrupt_def
    by (simp add: stream_body_llm[OF request_hi_handle(2)] request_hi_handle(3))
  from event_stream_uncaught[OF _ this, of Map.empty] request_hi_handle(1)
  show ?thesis unfolding env_interrupt_def by simp
qed

theorem stream_failure_no_error_event_counterexample:
  "stream env_bad_str (ChatOllama ''llama3.1'' True) (build_messages request_hi)
     = [Inr ''Hel'', Inl (StrRaises (OtherError ''no message''))]
   \<and> fst (event_stream env_bad_str Map.empty request_hi)
     = ([Meta ''llama3.1'' 1, Token ''Hel'', Done], Some (OtherError ''no message''))
   \<and> stream env_interrupt (ChatOllama ''llama3.1'' True) (build_messages request_hi)
     = [Inr ''Hel'', Inl (NotException ''KeyboardInterrupt'')]
   \<and> fst (event_stream env_interrupt Map.empty request_hi)
     = ([Meta ''llama3.1'' 1, Token ''Hel'', Done], Some (NotException ''KeyboardInterrupt''))"
proof -
  have s: "stream env_bad_str (ChatOllama ''llama3.1'' True) (build_messages request_hi)
             = map Inr [''Hel''] @ Inl (StrRaises (OtherError ''no message'')) # []"
    by (simp add: env_bad_str_def)
  from event_stream_str_raises_run[OF request_hi_handle(1,2), of _ "[''Hel'']"
      "OtherError ''no message''" "[]" Map.empty] s
  have "fst (event_stream env_bad_str Map.empty request_hi)
     = ([Meta ''llama3.1'' 1, Token ''Hel'', Done], Some (OtherError ''no message''))"
    unfolding env_bad_str_def by (simp add: request_hi_handle(3))
  moreover have "stream env_interrupt (ChatOllama ''llama3.1'' True) (build_messages request_hi)
     = [Inr ''Hel'', Inl (NotException ''KeyboardInterrupt'')]"
    by (simp add: env_interrupt_def)
  ultimately show ?thesis using s event_stream_interrupt_run by simp
qed

section \<open>The model passed by the chat endpoints\<close>

lemma get_llm_explicit:
  "m \<noteq> [] \<Longrightarrow> get_llm av names (Some m) strm = Inr llm \<Longrightarrow> llm_model llm = m \<and> m \<in> set names"
  by (auto simp: get_llm_def split: if_splits)

lemma model_or_default_nonempty: "model_or_default req \<noteq> []"
  by (simp add: model_or_default_def split: option.splits)

lemma app_get_llm_explicit:
  assumes "app_get_llm e (Some (model_or_default req)) strm = Inr llm"
  shows "llm_model llm = model_or_default req \<and> model_or_default req \<in> set (installed e)"
proof -
  from assms have "get_llm (langchain_ollama_importable e) (installed e)
                     (Some (model_or_default req)) strm = Inr llm"
    by (simp add: app_get_llm_def split: if_splits)
  from get_llm_explicit[OF model_or_default_nonempty this] show ?thesis .
qed

lemma app_get_llm_missing:
  assumes "m \<noteq> []" and "m \<notin> set (installed e)"
  shows "\<exists>msg. app_get_llm e (Some m) strm = Inl (RuntimeError msg)"
  using assms by (simp add: app_get_llm_def get_llm_def)

lemma chat_error:
  "OLLAMA_AVAILABLE e \<Longrightarrow>
   app_get_llm e (Some (model_or_default req)) False = Inl (RuntimeError m) \<Longrightarrow>
     fst (chat e st req) = Inr (ChatOutput (''Error from model: '' @ m))"
  by (simp add: chat_def chat_body_def)

lemma stream_error:
  assumes "OLLAMA_AVAILABLE e"
    and "app_get_llm e (Some (model_or_default req)) True = Inl (RuntimeError m)"
  shows "fst (event_stream e st req) = ([Error m, Done], None)"
proof -
  from assms(2) have "stream_body e req = ([], Some (RuntimeError m))"
    by (simp add: stream_body_def)
  from event_stream_caught[OF assms(1) this, of m st] show ?thesis by simp
qed

text \<open>
  Claim C9. With the flag true and \<open>req.model\<close> \<open>None\<close>, \<open>chat\<close> and \<open>event_stream\<close> call
  \<open>get_llm\<close> with the identifier \<open>llama3.1\<close> and behave as for a request that names it.
  When \<open>llama3.1\<close> is not installed both take the error path; a handle they obtain is
  always for \<open>llama3.1\<close>, so the default selection of \<open>get_llm\<close> is never used.
\<close>

theorem model_none_passes_llama31:
  assumes av: "OLLAMA_AVAILABLE e" and none: "model req = None"
  shows "model_or_default req = ''llama3.1''
       \<and> chat e st req = chat e st (req\<lparr>model := Some ''llama3.1''\<rparr>)
       \<and> event_stream e st req = event_stream e st (req\<lparr>model := Some ''llama3.1''\<rparr>)
       \<and> (''llama3.1'' \<notin> set (installed e) \<longrightarrow>
            (\<exists>m. app_get_llm e (Some ''llama3.1'') False = Inl (RuntimeError m)
                 \<and> fst (chat e st req) = Inr (ChatOutput (''Error from model: '' @ m)))
          \<and> (\<exists>m. app_get_llm e (Some ''llama3.1'') True = Inl (RuntimeError m)
                 \<and> fst (event_stream e st req) = ([Error m, Done], None)))
       \<and> (''llama3.1'' \<notin> set (installed e) \<and> provider_importable e
              \<and> langchain_ollama_importable e \<longrightarrow>
            fst (chat e st req)
              = Inr (ChatOutput
                  (''Error from model: '' @ not_installed_message ''llama3.1'' (installed e)))
          \<and> fst (event_stream e st req)
              = ([Error (not_installed_message ''llama3.1'' (installed e)), Done], None))
       \<and> (\<forall>llm strm. app_get_llm e (Some (model_or_default req)) strm = Inr llm \<longrightarrow>
            llm_model llm = ''llama3.1'' \<and> ''llama3.1'' \<in> set (installed e))"
proof -
  have md: "model_or_default req = ''llama3.1''"
    using none by (simp add: model_or_default_def)
  let ?req' = "req\<lparr>model := Some ''llama3.1''\<rparr>"
  have md': "model_or_default ?req' = ''llama3.1''" by (simp add: model_or_default_def)
  have bm: "build_messages ?req' = build_messages req"
    by (simp add: build_messages_def system_text_def history_list_def)
  have hl: "history_list ?req' = history_list req" by (simp add: history_list_def)
  have sid: "session_id ?req' = session_id req" by (simp add: session_id_def)
  have c: "chat e st req = chat e st ?req'"
    using av unfolding chat_def chat_body_def md md' bm by simp
  have sb: "stream_body e ?req' = stream_body e req"
    unfolding stream_body_def md md' bm hl by (rule refl)
  have sh: "seed_history e st ?req' = seed_history e st req"
    by (simp add: seed_history_def sid hl)
  have s: "event_stream e st req = event_stream e st ?req'"
    by (simp add: event_stream_def sb sh)
  have err: "(\<exists>m. app_get_llm e (Some ''llama3.1'') False = Inl (RuntimeError m)
                 \<and> fst (chat e st req) = Inr (ChatOutput (''Error from model: '' @ m)))
          \<and> (\<exists>m. app_get_llm e (Some ''llama3.1'') True = Inl (RuntimeError m)
                 \<and> fst (event_stream e st req) = ([Error m, Done], None))"
    if "''llama3.1'' \<notin> set (installed e)"
  proof -
    from app_get_llm_missing[OF _ that, of False]
    obtain m1 where 1: "app_get_llm e (Some ''llama3.1'') False = Inl (RuntimeError m1)" by auto
    from app_get_llm_missing[OF _ that, of True]
    obtain m2 where 2: "app_get_llm e (Some ''llama3.1'') True = Inl (RuntimeError m2)" by auto
    from chat_error[OF av, where req=req and m=m1 and st=st] 1 md
    have "fst (chat e st req) = Inr (ChatOutput (''Error from model: '' @ m1))" by simp
    moreover from stream_error[OF av, where req=req and m=m2 and st=st] 2 md
    have "fst (event_stream e st req) = ([Error m2, Done], None)" by simp
    ultimately show ?thesis using 1 2 by blast
  qed
  have msg: "fst (chat e st req)
              = Inr (ChatOutput
                  (''Error from model: '' @ not_installed_message ''llama3.1'' (installed e)))
          \<and> fst (event_stream e st req)
              = ([Error (not_installed_message ''llama3.1'' (installed e)), Done], None)"
    if "''llama3.1'' \<notin> set (installed e) \<and> provider_importable e \<and> langchain_ollama_importable e"
  proof -
    have g: "app_get_llm e (Some ''llama3.1'') strm
               = Inl (RuntimeError (not_installed_message ''llama3.1'' (installed e)))" for strm
      using that by (simp add: app_get_llm_def get_llm_def)
    from chat_error[OF av, where req=req and st=st] g[of False] md
    have "fst (chat e st req)
            = Inr (ChatOutput
                (''Error from model: '' @ not_installed_message ''llama3.1'' (installed e)))"
      by simp
    moreover from stream_error[OF av, where req=req and st=st] g[of True] md
    have "fst (event_stream e st req)
            = ([Error (not_installed_message ''llama3.1'' (installed e)), Done], None)"
      by simp
    ultimately show ?thesis by blast
  qed
  have unreach: "llm_model llm = ''llama3.1'' \<and> ''llama3.1'' \<in> set (installed e)"
    if "app_get_llm e (Some (model_or_default req)) strm = Inr llm" for llm strm
    using app_get_llm_explicit[OF that] md by simp
  from md c s err msg unreach show ?thesis by blast
qed

theorem model_none_passes_llama31_witness:
  "fst (chat env_no_llama Map.empty request_hi)
     = Inr (ChatOutput
         (''Error from model: '' @ not_installed_message ''llama3.1'' [''mistral:7b'']))
   \<and> fst (event_stream env_no_llama Map.empty request_hi)
     = ([Error (not_installed_message ''llama3.1'' [''mistral:7b'']), Done], None)
   \<and> get_llm True [''mistral:7b''] None True = Inr (ChatOllama ''mistral:7b'' True)"
proof -
  have av: "OLLAMA_AVAILABLE env_no_llama"
    by (simp add: OLLAMA_AVAILABLE_def env_no_llama_def env_ok_def)
  have n: "model request_hi = None" by (simp add: request_hi_def)
  have i: "installed env_no_llama = [''mistral:7b'']"
    and p: "provider_importable env_no_llama" and l: "langchain_ollama_importable env_no_llama"
    by (simp_all add: env_no_llama_def env_ok_def)
  from model_none_passes_llama31[OF av n, of Map.empty,
      THEN conjunct2, THEN conjunct2, THEN conjunct2, THEN conjunct2, THEN conjunct1]
  have "fst (chat env_no_llama Map.empty request_hi)
     = Inr (ChatOutput
         (''Error from model: '' @ not_installed_message ''llama3.1'' [''mistral:7b'']))
   \<and> fst (event_stream env_no_llama Map.empty request_hi)
     = ([Error (not_installed_message ''llama3.1'' [''mistral:7b'']), Done], None)"
    using p l unfolding i by simp
  moreover have "get_llm True [''mistral:7b''] None True = Inr (ChatOllama ''mistral:7b'' True)"
    by (simp add: get_llm_def select_default_def default_candidates_def)
  ultimately show ?thesis by blast
qed

text \<open>
  Claim C7, evaluated where \<open>langchain_core\<close> is importable and \<open>langchain_ollama\<close> is
  not: the flag of app.py is true, \<open>get_llm\<close> raises, and the stream is an \<open>Error\<close>
  event followed by \<open>Done\<close>, not the informational token of the fallback.
\<close>

theorem integration_missing_gives_error_event:
  "\<not> langchain_ollama_importable env_core_only
   \<and> fst (event_stream env_core_only Map.empty request_hi)
       = ([Error ''langchain-ollama not installed'', Done], None)"
  by (simp add: event_stream_def try_except_def try_finally_def error_handler_def
        stream_body_def app_get_llm_def get_llm_def OLLAMA_AVAILABLE_def env_core_only_def
        env_ok_def)

lemma add_message_upd:
  "add_message sid (st(dict_key sid \<mapsto> old)) m = st(dict_key sid \<mapsto> old @ [m])"
  by (simp add: add_message_def)

lemma foldl_add_message_upd:
  "foldl (add_message sid) (st(dict_key sid \<mapsto> old)) ms = st(dict_key sid \<mapsto> old @ ms)"
proof (induction ms arbitrary: old)
  case Nil
  show ?case by simp
next
  case (Cons m ms)
  have "foldl (add_message sid) (st(dict_key sid \<mapsto> old)) (m # ms)
          = foldl (add_message sid) (st(dict_key sid \<mapsto> old @ [m])) ms"
    by (simp only: foldl_Cons add_message_upd)
  also have "\<dots> = st(dict_key sid \<mapsto> (old @ [m]) @ ms)" by (rule Cons.IH)
  also have "(old @ [m]) @ ms = old @ m # ms" by simp
  finally show ?case .
qed

lemma foldl_add_message:
  assumes "st (dict_key sid) = Some old"
  shows "foldl (add_message sid) st ms = st(dict_key sid \<mapsto> old @ ms)"
proof -
  from assms have "st = st(dict_key sid \<mapsto> old)" by (simp add: fun_upd_idem)
  then have "foldl (add_message sid) st ms
               = foldl (add_message sid) (st(dict_key sid \<mapsto> old)) ms" by simp
  then show ?thesis by (simp only: foldl_add_message_upd)
qed

lemma seed_history_store:
  assumes "store_importable e"
  shows "seed_history e st req
           = st(dict_key (session_id req) \<mapsto>
                  (case st (dict_key (session_id req)) of None \<Rightarrow> [] | Some ms \<Rightarrow> ms)
                  @ map to_message (last_n 10 (history_list req)))"
proof (cases "st (dict_key (session_id req))")
  case None
  then have "get_session_history st (session_id req) (dict_key (session_id req)) = Some []"
    by (simp add: get_session_history_def)
  from foldl_add_message[where st = "get_session_history st (session_id req)", OF this]
    None assms show ?thesis
    by (simp add: seed_history_def get_session_history_def)
next
  case (Some old)
  then have "get_session_history st (session_id req) (dict_key (session_id req)) = Some old"
    by (simp add: get_session_history_def)
  from foldl_add_message[where st = "get_session_history st (session_id req)", OF this]
    Some assms show ?thesis
    by (simp add: seed_history_def get_session_history_def)
qed

text \<open>
  Claim C10, as amended. For a request with no user context, or with no or a false
  \<open>conversation_id\<close> in it, the session identifier is \<open>default\<close>. \<open>chat\<close> computes it
  and leaves the session store as it is. \<open>event_stream\<close>, when the flag is true and the
  store is importable, appends the last ten history entries to the one history stored
  under \<open>default\<close> and changes no other entry; otherwise it leaves the store as it is.
\<close>

theorem default_session_shared:
  assumes "user_context req = None
           \<or> (\<exists>ctx. user_context req = Some ctx
                \<and> (ctx ''conversation_id'' = None
                   \<or> (\<exists>v. ctx ''conversation_id'' = Some v \<and> \<not> truthy v)))"
  shows "session_id req = PyStr ''default''
       \<and> snd (chat e st req) = st
       \<and> (OLLAMA_AVAILABLE e \<and> store_importable e \<longrightarrow>
            snd (event_stream e st req)
              = st(PyStr ''default'' \<mapsto>
                     default_history st @ map to_message (last_n 10 (history_list req))))
       \<and> (\<not> (OLLAMA_AVAILABLE e \<and> store_importable e) \<longrightarrow> snd (event_stream e st req) = st)"
proof -
  have sid: "session_id req = PyStr ''default''"
    using assms by (auto simp: session_id_def)
  have c: "snd (chat e st req) = st"
    by (simp add: chat_def split: sum.splits)
  have s1: "snd (event_stream e st req)
              = st(PyStr ''default'' \<mapsto>
                     default_history st @ map to_message (last_n 10 (history_list req)))"
    if "OLLAMA_AVAILABLE e \<and> store_importable e"
  proof -
    from that have "snd (event_stream e st req) = seed_history e st req"
      by (simp add: event_stream_def)
    also have "\<dots> = st(dict_key (session_id req) \<mapsto>
                  (case st (dict_key (session_id req)) of None \<Rightarrow> [] | Some ms \<Rightarrow> ms)
                  @ map to_message (last_n 10 (history_list req)))"
      using that by (intro seed_history_store) simp
    finally show ?thesis unfolding sid by (simp add: dict_key_def default_history_def)
  qed
  have s2: "snd (event_stream e st req) = st" if "\<not> (OLLAMA_AVAILABLE e \<and> store_importable e)"
    using that by (auto simp: event_stream_def seed_history_def)
  from sid c s1 s2 show ?thesis by blast
qed

theorem one_shot_chat_leaves_store_counterexample:
  "user_context request_hi = None
   \<and> history request_hi = Some [\<lparr>role = ''user'', content = ''earlier''\<rparr>]
   \<and> fst (chat env_ok Map.empty request_hi) = Inr (ChatOutput ''ok'')
   \<and> snd (chat env_ok Map.empty request_hi) (PyStr ''default'') = None"
  by (simp add: chat_def chat_body_def app_get_llm_def get_llm_def model_or_default_def
        OLLAMA_AVAILABLE_def env_ok_def request_hi_def)

theorem default_session_shared_witness:
  "session_id request_hi = PyStr ''default''
   \<and> snd (event_stream env_ok Map.empty request_hi) (PyStr ''default'')
       = Some [HumanMessage ''earlier'']
   \<and> snd (event_stream env_ok (snd (event_stream env_ok Map.empty request_hi))
            (request_hi\<lparr>user_context := Some [''conversation_id'' \<mapsto> PyStr []],
                         history := Some [\<lparr>role = ''ASSISTANT'', content = ''reply''\<rparr>]\<rparr>))
         (PyStr ''default'')
       = Some [HumanMessage ''earlier'', AIMessage ''reply'']"
proof -
  let ?r2 = "request_hi\<lparr>user_context := Some [''conversation_id'' \<mapsto> PyStr []],
                         history := Some [\<lparr>role = ''ASSISTANT'', content = ''reply''\<rparr>]\<rparr>"
  let ?st1 = "snd (event_stream env_ok Map.empty request_hi)"
  have av: "OLLAMA_AVAILABLE env_ok \<and> store_importable env_ok"
    by (simp add: OLLAMA_AVAILABLE_def env_ok_def)
  have u1: "user_context request_hi = None
           \<or> (\<exists>ctx. user_context request_hi = Some ctx
                \<and> (ctx ''conversation_id'' = None
                   \<or> (\<exists>v. ctx ''conversation_id'' = Some v \<and> \<not> truthy v)))"
    by (simp add: request_hi_def)
  have u2: "user_context ?r2 = None
           \<or> (\<exists>ctx. user_context ?r2 = Some ctx
                \<and> (ctx ''conversation_id'' = None
                   \<or> (\<exists>v. ctx ''conversation_id'' = Some v \<and> \<not> truthy v)))"
    by simp
  have l1: "lower ''user'' = ''user''" and l2: "lower ''ASSISTANT'' = ''assistant''"
    by code_simp+
  have m1: "map to_message (last_n 10 (history_list request_hi)) = [HumanMessage ''earlier'']"
    by (simp add: history_list_def request_hi_def last_n_def to_message_def l1)
  have m2: "map to_message (last_n 10 (history_list ?r2)) = [AIMessage ''reply'']"
    by (simp add: history_list_def request_hi_def last_n_def to_message_def l2)
  from default_session_shared[OF u1, of env_ok Map.empty] av
  have a: "session_id request_hi = PyStr ''default''"
    and b: "?st1 = [PyStr ''default'' \<mapsto> [HumanMessage ''earlier'']]"
    by (simp_all add: m1 default_history_def)
  from default_session_shared[OF u2, of env_ok ?st1] av
  have "snd (event_stream env_ok ?st1 ?r2)
          = ?st1(PyStr ''default'' \<mapsto> default_history ?st1 @ [AIMessage ''reply''])"
    unfolding m2 by blast
  then have "snd (event_stream env_ok ?st1 ?r2) (PyStr ''default'')
          = Some [HumanMessage ''earlier'', AIMessage ''reply'']"
    unfolding b by (simp add: default_history_def)
  with a b show ?thesis by simp
qed

section \<open>The title heuristic and the title endpoint\<close>

lemma collapse_ws_spaces:
  "c \<in> set (collapse_ws s) \<Longrightarrow> isspace c \<Longrightarrow> c = CHR 0x20"
  by (induction s rule: collapse_ws.induct) (auto split: if_splits)

lemma set_rstrip: "set (rev (dropWhile P (rev s))) \<subseteq> set s"
  using set_dropWhileD[of _ P "rev s"] by auto

lemma set_strip: "set (strip s) \<subseteq> set s"
proof -
  have "set (strip s) \<subseteq> set (dropWhile isspace s)"
    unfolding strip_def by (rule set_rstrip)
  also have "\<dots> \<subseteq> set s" by (auto dest: set_dropWhileD)
  finally show ?thesis .
qed

lemma str_split_nonempty: "str_split sep s \<noteq> []"
  by (induction s) (auto split: list.splits)

lemma str_split_chars:
  "w \<in> set (str_split sep s) \<Longrightarrow> c \<in> set w \<Longrightarrow> c \<noteq> sep \<and> c \<in> set s"
proof (induction s arbitrary: w)
  case Nil
  then show ?case by simp
next
  case (Cons a s)
  show ?case
  proof (cases "a = sep")
    case True
    with Cons.prems have "w \<in> set (str_split sep s)" by auto
    from Cons.IH[OF this Cons.prems(2)] show ?thesis by simp
  next
    case False
    obtain v vs where sp: "str_split sep s = v # vs"
      using str_split_nonempty[of sep s] by (cases "str_split sep s") auto
    with False Cons.prems(1) have "w = a # v \<or> w \<in> set vs" by simp
    then show ?thesis
    proof
      assume w: "w = a # v"
      show ?thesis
      proof (cases "c = a")
        case True
        with False show ?thesis by simp
      next
        case ne: False
        with w Cons.prems(2) have "c \<in> set v" by simp
        moreover have "v \<in> set (str_split sep s)" using sp by simp
        ultimately show ?thesis using Cons.IH by simp
      qed
    next
      assume "w \<in> set vs"
      then have "w \<in> set (str_split sep s)" using sp by simp
      from Cons.IH[OF this Cons.prems(2)] show ?thesis by simp
    qed
  qed
qed

lemma join_Cons: "ws \<noteq> [] \<Longrightarrow> join sep (w # ws) = w @ sep @ join sep ws"
  by (cases ws) simp_all

lemma join_str_split: "join [sep] (str_split sep s) = s"
proof (induction s)
  case Nil
  show ?case by simp
next
  case (Cons a s)
  obtain v vs where sp: "str_split sep s = v # vs"
    using str_split_nonempty[of sep s] by (cases "str_split sep s") auto
  show ?case
  proof (cases "a = sep")
    case True
    then show ?thesis using Cons.IH str_split_nonempty[of sep s] by (simp add: join_Cons)
  next
    case False
    have "join [sep] ((a # v) # vs) = a # join [sep] (v # vs)"
      by (cases vs) simp_all
    with False sp Cons.IH show ?thesis by simp
  qed
qed

lemma count_tokens_le_Suc: "count_tokens False s \<le> Suc (count_tokens True s)"
  by (cases s) simp_all

lemma count_tokens_tl: "count_tokens False cs \<le> count_tokens False (c # cs)"
  using count_tokens_le_Suc[of cs] by simp

lemma count_tokens_word:
  "\<forall>c \<in> set w. \<not> isspace c \<Longrightarrow>
     count_tokens b (w @ r)
       = (if w = [] then count_tokens b r else (if b then 0 else 1) + count_tokens True r)"
  by (induction w arbitrary: b) simp_all

lemma count_tokens_join:
  "\<forall>w \<in> set ws. \<forall>c \<in> set w. \<not> isspace c \<Longrightarrow> count_tokens b (join '' '' ws) \<le> length ws"
proof (induction ws arbitrary: b)
  case Nil
  show ?case by simp
next
  case (Cons w ws)
  have w: "\<forall>c \<in> set w. \<not> isspace c" using Cons.prems by simp
  show ?case
  proof (cases ws)
    case Nil
    have "count_tokens b (w @ []) \<le> 1"
      unfolding count_tokens_word[OF w] by simp
    with Nil show ?thesis by simp
  next
    case (Cons y ys)
    have sp: "isspace (CHR 0x20)" by (simp add: isspace_def)
    have ih: "count_tokens False (join '' '' ws) \<le> length ws"
      using Cons.IH Cons.prems by simp
    have "count_tokens b (w @ CHR 0x20 # join '' '' ws)
            \<le> Suc (count_tokens False (join '' '' ws))"
      unfolding count_tokens_word[OF w] using sp by simp
    with ih Cons show ?thesis by simp
  qed
qed

lemma count_tokens_prefix: "count_tokens b xs \<le> count_tokens b (xs @ ys)"
  by (induction xs arbitrary: b) simp_all

lemma count_tokens_dropWhile: "count_tokens False (dropWhile Q s) \<le> count_tokens False s"
proof (induction s)
  case Nil
  show ?case by simp
next
  case (Cons c cs)
  show ?case
  proof (cases "Q c")
    case True
    with Cons.IH count_tokens_tl[of cs c] show ?thesis by simp
  next
    case False
    then show ?thesis by simp
  qed
qed

lemma count_tokens_rstrip: "count_tokens b (rev (dropWhile Q (rev s))) \<le> count_tokens b s"
proof -
  have "rev (dropWhile Q (rev s)) @ rev (takeWhile Q (rev s)) = s"
    by (metis rev_append rev_rev_ident takeWhile_dropWhile_id)
  then show ?thesis using count_tokens_prefix by metis
qed

lemma n_tokens_strip_chars: "n_tokens (strip_chars cs s) \<le> n_tokens s"
proof -
  have "n_tokens (strip_chars cs s) \<le> count_tokens False (dropWhile (\<lambda>c. c \<in> set cs) s)"
    unfolding n_tokens_def strip_chars_def by (rule count_tokens_rstrip)
  also have "\<dots> \<le> n_tokens s" unfolding n_tokens_def by (rule count_tokens_dropWhile)
  finally show ?thesis .
qed

lemma n_tokens_rstrip_punct: "n_tokens (rstrip_punct s) \<le> n_tokens s"
  unfolding n_tokens_def rstrip_punct_def by (rule count_tokens_rstrip)

lemma length_slice_to: "0 \<le> k \<Longrightarrow> int (length (slice_to k xs)) \<le> k"
  by (simp add: slice_to_def)

lemma set_slice_to: "set (slice_to k xs) \<subseteq> set xs"
  by (auto simp: slice_to_def dest: in_set_takeD)

lemma n_tokens_truncated:
  assumes sp: "\<forall>c \<in> set t. isspace c \<longrightarrow> c = CHR 0x20" and mw: "0 \<le> mw"
  shows "int (n_tokens (if int (length (str_split (CHR 0x20) t)) > mw
                        then join '' '' (slice_to mw (str_split (CHR 0x20) t)) else t)) \<le> mw"
proof -
  let ?ws = "str_split (CHR 0x20) t"
  have words: "\<forall>w \<in> set ?ws. \<forall>c \<in> set w. \<not> isspace c"
  proof (intro ballI)
    fix w c assume "w \<in> set ?ws" and "c \<in> set w"
    from str_split_chars[OF this] sp show "\<not> isspace c" by blast
  qed
  show ?thesis
  proof (cases "int (length ?ws) > mw")
    case True
    have "\<forall>w \<in> set (slice_to mw ?ws). \<forall>c \<in> set w. \<not> isspace c"
      using words set_slice_to[of mw ?ws] by blast
    from count_tokens_join[OF this, of False]
    have "int (n_tokens (join '' '' (slice_to mw ?ws))) \<le> int (length (slice_to mw ?ws))"
      by (simp add: n_tokens_def)
    also have "\<dots> \<le> mw" using mw by (rule length_slice_to)
    finally show ?thesis using True by simp
  next
    case False
    have "n_tokens t = count_tokens False (join '' '' ?ws)"
      using join_str_split[of "CHR 0x20" t] by (simp add: n_tokens_def)
    also have "\<dots> \<le> length ?ws" using words by (rule count_tokens_join)
    finally show ?thesis using False by simp
  qed
qed

lemma n_tokens_New_Chat: "n_tokens ''New Chat'' = 2"
  by (simp add: n_tokens_def isspace_def)

lemma heuristic_title_nonempty: "heuristic_title ms mw \<noteq> []"
  by (simp add: heuristic_title_def Let_def)

lemma heuristic_title_cases:
  assumes "0 \<le> mw"
  shows "heuristic_title ms mw = ''New Chat''
         \<or> int (n_tokens (heuristic_title ms mw)) \<le> mw"
proof -
  define t where "t = strip (collapse_ws (remove_headers True (remove_fences (select_text ms))))"
  define t1 where "t1 = (if int (length (str_split (CHR 0x20) t)) > mw
                        then join '' '' (slice_to mw (str_split (CHR 0x20) t)) else t)"
  define t3 where "t3 = rstrip_punct (strip_chars (quote_chars @ '' '') t1)"
  have h: "heuristic_title ms mw = (if t3 \<noteq> [] then t3 else ''New Chat'')"
    by (simp add: heuristic_title_def Let_def t_def t1_def t3_def)
  have sp: "\<forall>c \<in> set t. isspace c \<longrightarrow> c = CHR 0x20"
    unfolding t_def using set_strip collapse_ws_spaces by blast
  have "int (n_tokens t1) \<le> mw"
    unfolding t1_def using sp assms by (intro n_tokens_truncated) simp_all
  moreover have "n_tokens t3 \<le> n_tokens t1"
    unfolding t3_def using n_tokens_rstrip_punct n_tokens_strip_chars le_trans by blast
  ultimately have "int (n_tokens t3) \<le> mw" by simp
  then show ?thesis unfolding h by simp
qed

lemma select_text_single:
  assumes "strip c \<noteq> []"
  shows "select_text [\<lparr>role = r, content = c\<rparr>] = strip c"
proof -
  from assms have "c \<noteq> []" by (auto simp: strip_def)
  with assms show ?thesis by (simp add: select_text_def Let_def)
qed

lemma strip_scenario_d: "strip scenario_d = scenario_d"
  by code_simp

lemma scenario_d_stripped:
  "remove_headers True (remove_fences scenario_d)
     = '' '' @ [CHR 0x0A] @ ''Heading'' @ [CHR 0x0A] @ ''Deploy the service''"
  by code_simp

lemma scenario_d_user_title:
  "heuristic_title [\<lparr>role = ''user'', content = scenario_d\<rparr>] 6 = ''Heading Deploy the service''"
  by code_simp

lemma heuristic_title_role_irrelevant:
  assumes "strip c \<noteq> []"
  shows "heuristic_title [\<lparr>role = r, content = c\<rparr>] mw
           = heuristic_title [\<lparr>role = r', content = c\<rparr>] mw"
  unfolding heuristic_title_def select_text_single[OF assms] ..

text \<open>
  Claim C4, as amended. For the single message of Scenario D and \<open>max_words = 6\<close>, whatever
  its role, the heuristic removes the fenced block and the heading marker \<open>#\<close> with the
  space after it, keeps the heading text, and returns \<open>Heading Deploy the service\<close>.
\<close>

theorem scenario_d_title:
  "heuristic_title [\<lparr>role = r, content = scenario_d\<rparr>] 6 = ''Heading Deploy the service''
   \<and> remove_headers True (remove_fences scenario_d)
       = '' '' @ [CHR 0x0A] @ ''Heading'' @ [CHR 0x0A] @ ''Deploy the service''"
proof -
  have "strip scenario_d \<noteq> []" unfolding strip_scenario_d by (simp add: scenario_d_def)
  from heuristic_title_role_irrelevant[OF this, of r 6 "''user''"]
  show ?thesis by (simp only: scenario_d_user_title scenario_d_stripped)
qed

theorem scenario_d_title_counterexample:
  "heuristic_title [\<lparr>role = ''user'', content = scenario_d\<rparr>] 6 \<noteq> ''Deploy the service''"
  unfolding scenario_d_user_title by simp

lemma heuristic_title_bound_iff:
  "int (n_tokens (heuristic_title ms mw)) \<le> mw
     \<longleftrightarrow> 0 \<le> mw \<and> (heuristic_title ms mw \<noteq> ''New Chat'' \<or> 2 \<le> mw)"
proof
  assume b: "int (n_tokens (heuristic_title ms mw)) \<le> mw"
  have "0 \<le> int (n_tokens (heuristic_title ms mw))" by simp
  with b have "0 \<le> mw" by linarith
  moreover have "2 \<le> mw" if "heuristic_title ms mw = ''New Chat''"
    using b that by (simp add: n_tokens_New_Chat)
  ultimately show "0 \<le> mw \<and> (heuristic_title ms mw \<noteq> ''New Chat'' \<or> 2 \<le> mw)" by blast
next
  assume a: "0 \<le> mw \<and> (heuristic_title ms mw \<noteq> ''New Chat'' \<or> 2 \<le> mw)"
  from heuristic_title_cases[where ms = ms and mw = mw] a
  show "int (n_tokens (heuristic_title ms mw)) \<le> mw"
    by (auto simp: n_tokens_New_Chat)
qed

lemma clean_reply_error: "clean_reply res = Inl ex \<Longrightarrow> is_exception ex"
  by (auto simp: clean_reply_def first_line_def split: if_splits)

lemma generate_title_nonempty: "generate_title e req = Inr t \<Longrightarrow> t \<noteq> []"
  using heuristic_title_nonempty[of "messages req" "max_words req"]
  by (auto simp: generate_title_def base_title_def pass_exception_def Let_def
           split: sum.splits invoke_outcome.splits if_splits)

text \<open>
  Claim C5, as amended. A title that is returned is never empty, and one is returned
  unless the model call raises an exception that is not an \<open>Exception\<close>. The title is the
  cleaned first line of the model's reply when the flag is true, a handle is obtained and
  the model replies in time with a cleaned first line that is not empty; in every other
  returning case it is the heuristic title. The heuristic title has at most \<open>max_words\<close>
  whitespace-delimited tokens exactly when \<open>max_words\<close> is not negative and the title is
  not the fallback \<open>New Chat\<close> with \<open>max_words\<close> below 2.
\<close>

theorem title_nonempty_heuristic_bounded:
  "base_title req \<noteq> []
   \<and> (int (n_tokens (base_title req)) \<le> max_words req
        \<longleftrightarrow> 0 \<le> max_words req \<and> (base_title req \<noteq> ''New Chat'' \<or> 2 \<le> max_words req))
   \<and> (\<forall>t. generate_title e req = Inr t \<longrightarrow> t \<noteq> [])
   \<and> (\<not> OLLAMA_AVAILABLE e \<longrightarrow> generate_title e req = Inr (base_title req))
   \<and> (OLLAMA_AVAILABLE e \<and> app_get_llm e (title_model req) False = Inl ex \<longrightarrow>
        generate_title e req = Inr (base_title req))
   \<and> (OLLAMA_AVAILABLE e \<and> app_get_llm e (title_model req) False = Inr llm
        \<and> title_invoke e llm (last_n 8 (messages req)) = TimedOut \<longrightarrow>
        generate_title e req = Inr (base_title req))
   \<and> (OLLAMA_AVAILABLE e \<and> app_get_llm e (title_model req) False = Inr llm
        \<and> title_invoke e llm (last_n 8 (messages req)) = Raised ex \<longrightarrow>
        generate_title e req = (if is_exception ex then Inr (base_title req) else Inl ex))
   \<and> (OLLAMA_AVAILABLE e \<and> app_get_llm e (title_model req) False = Inr llm
        \<and> title_invoke e llm (last_n 8 (messages req)) = Replied res
        \<and> clean_reply res = Inr t \<and> t \<noteq> [] \<longrightarrow>
        generate_title e req = Inr t)
   \<and> (OLLAMA_AVAILABLE e \<and> app_get_llm e (title_model req) False = Inr llm
        \<and> title_invoke e llm (last_n 8 (messages req)) = Replied res
        \<and> (clean_reply res = Inr [] \<or> clean_reply res = Inl ex) \<longrightarrow>
        generate_title e req = Inr (base_title req))"
proof (intro conjI impI allI)
  show "base_title req \<noteq> []"
    unfolding base_title_def by (rule heuristic_title_nonempty)
  show "int (n_tokens (base_title req)) \<le> max_words req
        \<longleftrightarrow> 0 \<le> max_words req \<and> (base_title req \<noteq> ''New Chat'' \<or> 2 \<le> max_words req)"
    unfolding base_title_def by (rule heuristic_title_bound_iff)
next
  fix t assume "generate_title e req = Inr t"
  then show "t \<noteq> []" by (rule generate_title_nonempty)
next
  assume "\<not> OLLAMA_AVAILABLE e"
  then show "generate_title e req = Inr (base_title req)"
    by (simp add: generate_title_def)
next
  assume a: "OLLAMA_AVAILABLE e \<and> app_get_llm e (title_model req) False = Inl ex"
  then obtain m where "ex = RuntimeError m" using app_get_llm_error by blast
  with a show "generate_title e req = Inr (base_title req)"
    by (simp add: generate_title_def pass_exception_def)
next
  assume "OLLAMA_AVAILABLE e \<and> app_get_llm e (title_model req) False = Inr llm
        \<and> title_invoke e llm (last_n 8 (messages req)) = TimedOut"
  then show "generate_title e req = Inr (base_title req)"
    by (simp add: generate_title_def)
next
  assume "OLLAMA_AVAILABLE e \<and> app_get_llm e (title_model req) False = Inr llm
        \<and> title_invoke e llm (last_n 8 (messages req)) = Raised ex"
  then show "generate_title e req = (if is_exception ex then Inr (base_title req) else Inl ex)"
    by (simp add: generate_title_def pass_exception_def)
next
  assume "OLLAMA_AVAILABLE e \<and> app_get_llm e (title_model req) False = Inr llm
        \<and> title_invoke e llm (last_n 8 (messages req)) = Replied res
        \<and> clean_reply res = Inr t \<and> t \<noteq> []"
  then show "generate_title e req = Inr t"
    by (simp add: generate_title_def)
next
  assume a: "OLLAMA_AVAILABLE e \<and> app_get_llm e (title_model req) False = Inr llm
        \<and> title_invoke e llm (last_n 8 (messages req)) = Replied res
        \<and> (clean_reply res = Inr [] \<or> clean_reply res = Inl ex)"
  then have "clean_reply res = Inr [] \<or> clean_reply res = Inl ex" by simp
  then show "generate_title e req = Inr (base_title req)"
  proof
    assume "clean_reply res = Inr []"
    with a show ?thesis by (simp add: generate_title_def)
  next
    assume c: "clean_reply res = Inl ex"
    then have "is_exception ex" by (rule clean_reply_error)
    with a c show ?thesis by (simp add: generate_title_def pass_exception_def)
  qed
qed

lemma title_request_a_eval:
  "base_title title_request_a = ''Explain binary search''"
  "clean_reply quoted_reply = Inr ''Binary Search Basics''"
  by code_simp+

lemma title_request_a_handle:
  "OLLAMA_AVAILABLE (env_ok\<lparr>title_invoke := f\<rparr>)"
  "app_get_llm (env_ok\<lparr>title_invoke := f\<rparr>) (title_model title_request_a) False
     = Inr (ChatOllama ''llama3.1'' False)"
  by (simp_all add: OLLAMA_AVAILABLE_def app_get_llm_def get_llm_def select_default_def
        default_candidates_def env_ok_def title_request_a_def)

theorem title_nonempty_heuristic_bounded_witness:
  "generate_title env_timeout title_request_a = Inr ''Explain binary search''
   \<and> int (n_tokens ''Explain binary search'') \<le> 6
   \<and> generate_title env_quoted title_request_a = Inr ''Binary Search Basics''"
proof -
  have m: "max_words title_request_a = 6" by (simp add: title_request_a_def)
  have ne: "''Explain binary search'' \<noteq> ''New Chat''" by simp
  have t1: "title_invoke env_timeout (ChatOllama ''llama3.1'' False)
              (last_n 8 (messages title_request_a)) = TimedOut"
    by (simp add: env_timeout_def)
  have t2: "title_invoke env_quoted (ChatOllama ''llama3.1'' False)
              (last_n 8 (messages title_request_a)) = Replied quoted_reply"
    by (simp add: env_quoted_def)
  have n: "''Binary Search Basics'' \<noteq> []" by simp
  note thm1 = title_nonempty_heuristic_bounded[of title_request_a env_timeout _
      "ChatOllama ''llama3.1'' False"]
  note thm2 = title_nonempty_heuristic_bounded[of title_request_a env_quoted _
      "ChatOllama ''llama3.1'' False" quoted_reply "''Binary Search Basics''"]
  from thm1[THEN conjunct2, THEN conjunct2, THEN conjunct2, THEN conjunct2, THEN conjunct2,
      THEN conjunct1] title_request_a_handle[of "\<lambda>llm ms. TimedOut"] t1
  have 1: "generate_title env_timeout title_request_a = Inr ''Explain binary search''"
    unfolding env_timeout_def title_request_a_eval by simp
  from thm1[THEN conjunct2, THEN conjunct1] ne
  have 2: "int (n_tokens ''Explain binary search'') \<le> 6"
    unfolding title_request_a_eval m by simp
  from thm2[THEN conjunct2, THEN conjunct2, THEN conjunct2, THEN conjunct2, THEN conjunct2,
      THEN conjunct2, THEN conjunct2, THEN conjunct1]
    title_request_a_handle[of "\<lambda>llm ms. Replied quoted_reply"] t2 title_request_a_eval(2) n
  have 3: "generate_title env_quoted title_request_a = Inr ''Binary Search Basics''"
    unfolding env_quoted_def by simp
  from 1 2 3 show ?thesis by blast
qed

lemma title_request_two_eval:
  "generate_title env_ok title_request_two = Inr ''one two three four''"
  by code_simp

theorem title_boost_unbounded_counterexample:
  "generate_title env_ok title_request_two = Inr ''one two three four''
   \<and> max_words title_request_two = 2
   \<and> n_tokens ''one two three four'' = 4"
proof -
  have "n_tokens ''one two three four'' = 4" by (simp add: n_tokens_def isspace_def)
  moreover have "max_words title_request_two = 2" by (simp add: title_request_two_def)
  ultimately show ?thesis using title_request_two_eval by blast
qed

lemma heuristic_title_one_word_fallback:
  "heuristic_title [\<lparr>role = ''user'', content = ''...''\<rparr>] 1 = ''New Chat''"
  by code_simp

end
